theory Spec2Isabelle
  imports Main "HOL-Library.AList"
begin

section \<open>JavaScript values\<close>

text \<open>
  The values that travel in messages are structured clones: \<open>undefined\<close>, \<open>null\<close>,
  booleans, numbers, strings and plain objects. A number is modelled when it is an
  integer of magnitude at most \<open>2^53\<close> (identifiers and counters are): in that range
  JavaScript represents every integer exactly and prints it in decimal digits. An object
  is the association list of its own enumerable data properties, read with \<open>map_of\<close> (the
  first binding of a key is the property). Arrays and other numbers are outside this
  model.
\<close>

definition max_safe :: int where
  "max_safe = 9007199254740992"

typedef jsnum = "{i :: int. - max_safe \<le> i \<and> i \<le> max_safe}"
  by (rule exI [of _ 0]) (simp add: max_safe_def)

text \<open>
  \<open>num i\<close> is the number \<open>i\<close>. A counter that is incremented past the bound stays at
  it (\<open>2^53 + 1\<close> is \<open>2^53\<close> in JavaScript), which is what \<open>num\<close> gives there.
\<close>

definition num :: "int \<Rightarrow> jsnum" where
  "num i = Abs_jsnum (max (- max_safe) (min max_safe i))"

datatype jsval =
    Undefined
  | Null
  | Bool bool
  | Number jsnum
  | Str string
  | Obj "(string \<times> jsval) list"

abbreviation Num :: "int \<Rightarrow> jsval" where
  "Num i \<equiv> Number (num i)"

text \<open>\<open>!v\<close> is \<open>\<not> truthy v\<close>.\<close>

fun truthy :: "jsval \<Rightarrow> bool" where
  "truthy Undefined = False"
| "truthy Null = False"
| "truthy (Bool b) = b"
| "truthy (Number n) = (Rep_jsnum n \<noteq> 0)"
| "truthy (Str s) = (s \<noteq> [])"
| "truthy (Obj kvs) = True"

fun typeof :: "jsval \<Rightarrow> string" where
  "typeof Undefined = ''undefined''"
| "typeof Null = ''object''"
| "typeof (Bool b) = ''boolean''"
| "typeof (Number n) = ''number''"
| "typeof (Str s) = ''string''"
| "typeof (Obj kvs) = ''object''"

text \<open>Reading a property of \<open>undefined\<close> or \<open>null\<close> raises a TypeError.\<close>

fun nullish :: "jsval \<Rightarrow> bool" where
  "nullish Undefined = True"
| "nullish Null = True"
| "nullish v = False"

text \<open>
  \<open>a === b\<close>. Primitives are compared by value. An object is strictly equal only to
  itself, and the payload of a message is a fresh clone, so an object that arrives in a
  message is never strictly equal to a value the receiver already holds.
\<close>

definition strict_eq :: "jsval \<Rightarrow> jsval \<Rightarrow> bool" where
  "strict_eq a b = (case a of Obj kvs \<Rightarrow> False | _ \<Rightarrow> a = b)"

text \<open>
  \<open>v.k\<close> for the keys this program reads from a payload (\<open>postmate\<close>, \<open>type\<close>,
  \<open>childId\<close>, \<open>uid\<close>, \<open>value\<close>, \<open>property\<close>, \<open>data\<close>, \<open>model\<close>, \<open>name\<close>): none of them
  is defined on \<open>Object.prototype\<close> or on the wrapper of a boolean, a number or a string,
  so the read yields the own property of an object and \<open>undefined\<close> otherwise. The
  callers check \<open>nullish\<close> where the source would raise.
\<close>

fun field :: "jsval \<Rightarrow> string \<Rightarrow> jsval" where
  "field (Obj kvs) k = (case map_of kvs k of Some v \<Rightarrow> v | None \<Rightarrow> Undefined)"
| "field v k = Undefined"

text \<open>
  \<open>k in v\<close> for a payload \<open>v\<close> and the key \<open>postmate\<close>: the prototype of a clone is
  \<open>Object.prototype\<close>, which does not define that key, so the test is for an own property.
\<close>

fun has_own :: "jsval \<Rightarrow> string \<Rightarrow> bool" where
  "has_own (Obj kvs) k = (map_of kvs k \<noteq> None)"
| "has_own v k = False"

subsection \<open>Property keys\<close>

definition digit_char :: "nat \<Rightarrow> char" where
  "digit_char d = char_of (48 + d)"

fun show_nat :: "nat \<Rightarrow> string" where
  "show_nat n = (if n < 10 then [digit_char n] else show_nat (n div 10) @ [digit_char (n mod 10)])"

declare show_nat.simps [simp del]

definition show_int :: "int \<Rightarrow> string" where
  "show_int i = (if i < 0 then CHR ''-'' # show_nat (nat (- i)) else show_nat (nat i))"

text \<open>
  \<open>obj[v]\<close> and \<open>v in obj\<close> first turn \<open>v\<close> into a property key (a string). A plain
  object becomes \<open>[object Object]\<close> through the inherited \<open>toString\<close>; when it has an
  own property \<open>toString\<close> (which, in a clone, is never a function) the conversion
  raises a TypeError: \<open>None\<close>.
\<close>

fun to_key :: "jsval \<Rightarrow> string option" where
  "to_key Undefined = Some ''undefined''"
| "to_key Null = Some ''null''"
| "to_key (Bool b) = Some (if b then ''true'' else ''false'')"
| "to_key (Number n) = Some (show_int (Rep_jsnum n))"
| "to_key (Str s) = Some s"
| "to_key (Obj kvs) = (if map_of kvs ''toString'' \<noteq> None then None else Some ''[object Object]'')"

subsection \<open>Objects of the program and their prototype\<close>

text \<open>
  The objects the program itself holds (the table \<open>messageTypes\<close>, the event registry,
  the responder's model) are read with keys taken from messages. Such a read follows the
  prototype chain, so the properties every object inherits from \<open>Object.prototype\<close> are
  found as well.
\<close>

definition object_prototype_keys :: "string list" where
  "object_prototype_keys =
     [''constructor'', ''__defineGetter__'', ''__defineSetter__'', ''hasOwnProperty'',
      ''__lookupGetter__'', ''__lookupSetter__'', ''isPrototypeOf'', ''propertyIsEnumerable'',
      ''toString'', ''valueOf'', ''__proto__'', ''toLocaleString'']"

text \<open>A function is one of the model's own (\<open>User\<close>) or a built-in method.\<close>

datatype callee = User nat | Builtin string

datatype entry = Val jsval | Func callee

text \<open>
  The prototype of an object: \<open>Object.prototype\<close>, none, or a plain object (itself a
  clone, whose own prototype is \<open>Object.prototype\<close>) installed through \<open>__proto__\<close>.
\<close>

datatype proto = ObjectPrototype | NoPrototype | Custom "(string \<times> jsval) list"

text \<open>
  What \<open>Object.prototype\<close> yields for a key: its methods, and for \<open>__proto__\<close> (an
  accessor) the prototype of the object that was read, given as \<open>self\<close>.
\<close>

definition from_object_prototype :: "jsval \<Rightarrow> string \<Rightarrow> entry option" where
  "from_object_prototype self k =
     (if k = ''__proto__'' then Some (Val self)
      else if k \<in> set object_prototype_keys then Some (Func (Builtin k))
      else None)"

text \<open>\<open>Object.prototype\<close> itself has no enumerable own property: as a value it is \<open>{}\<close>.\<close>

definition inherited :: "proto \<Rightarrow> string \<Rightarrow> entry option" where
  "inherited p k =
     (case p of
        NoPrototype \<Rightarrow> None
      | ObjectPrototype \<Rightarrow> from_object_prototype (Obj []) k
      | Custom kvs \<Rightarrow>
          (case map_of kvs k of
             Some v \<Rightarrow> Some (Val v)
           | None \<Rightarrow> from_object_prototype (Obj kvs) k))"

text \<open>\<open>obj[k]\<close> and \<open>k in obj\<close> for an object with the given own properties.\<close>

definition get_property :: "(string \<times> entry) list \<Rightarrow> proto \<Rightarrow> string \<Rightarrow> entry" where
  "get_property own p k =
     (case map_of own k of
        Some e \<Rightarrow> e
      | None \<Rightarrow> (case inherited p k of Some e \<Rightarrow> e | None \<Rightarrow> Val Undefined))"

definition has_property :: "(string \<times> entry) list \<Rightarrow> proto \<Rightarrow> string \<Rightarrow> bool" where
  "has_property own p k =
     (case map_of own k of
        Some e \<Rightarrow> True
      | None \<Rightarrow> (case inherited p k of Some e \<Rightarrow> True | None \<Rightarrow> False))"

fun truthy_entry :: "entry \<Rightarrow> bool" where
  "truthy_entry (Val v) = truthy v"
| "truthy_entry (Func f) = True"

fun typeof_entry :: "entry \<Rightarrow> string" where
  "typeof_entry (Val v) = typeof v"
| "typeof_entry (Func f) = ''function''"

section \<open>Protocol envelope and sanitizer\<close>

definition messageType :: string where
  "messageType = ''application/x-postmate-v1+json''"

definition messageTypes :: "(string \<times> entry) list" where
  "messageTypes =
     [(''handshake'', Val (Num 1)), (''handshake-reply'', Val (Num 1)), (''call'', Val (Num 1)),
      (''emit'', Val (Num 1)), (''reply'', Val (Num 1)), (''request'', Val (Num 1))]"

text \<open>A message event: the sender's origin, the payload, and the sending window.\<close>

record msg =
  origin :: string
  data :: jsval
  source :: nat

text \<open>
  \<open>sanitize(message, allowedOrigin)\<close>. \<open>Some b\<close> is the returned boolean; \<open>None\<close> is the
  TypeError raised when \<open>message.data.postmate\<close> cannot be turned into a property key.
\<close>

definition sanitize :: "msg \<Rightarrow> jsval \<Rightarrow> bool option" where
  "sanitize message allowedOrigin =
     (if typeof allowedOrigin = ''string'' \<and> Str (origin message) \<noteq> allowedOrigin then Some False
      else if \<not> truthy (data message) then Some False
      else if typeof (data message) = ''object'' \<and> \<not> has_own (data message) ''postmate''
        then Some False
      else if field (data message) ''type'' \<noteq> Str messageType then Some False
      else (case to_key (field (data message) ''postmate'') of
              None \<Rightarrow> None
            | Some k \<Rightarrow>
                if \<not> truthy_entry (get_property messageTypes ObjectPrototype k) then Some False
                else Some True))"

section \<open>Remote API, initiator side\<close>

text \<open>
  A promise is settled at most once: \<open>resolve\<close> and \<open>reject\<close> on a settled promise do
  nothing.
\<close>

datatype settlement = Fulfilled | Rejected string

definition settle :: "settlement \<Rightarrow> settlement option \<Rightarrow> settlement option" where
  "settle x p = (case p of None \<Rightarrow> Some x | Some y \<Rightarrow> Some y)"

text \<open>
  The listeners a \<open>ParentAPI\<close> registers on \<open>this.parent\<close>: its persistent \<open>listener\<close>
  for emissions, and one \<open>transact\<close> closure for each \<open>get\<close>, identified by its \<open>uid\<close>.
  Message events are dispatched at the window; \<open>this.parent\<close> is the window when the API
  comes from \<open>Postmate\<close>, and may be another object when the class is constructed directly.
\<close>

datatype endpoint = Window | Elsewhere

datatype plistener = Emit | Transact nat

record parent_api =
  parent :: endpoint
  childOrigin :: jsval
  childId :: jsval
  events :: "(string \<times> nat list) list"
  registered :: "plistener list"
  outbox :: "(jsval \<times> jsval) list"
  callbacks :: "(nat \<times> jsval) list"
  resolved :: "(nat \<times> jsval) list"
  frame_attached :: bool
  uncaught :: nat

text \<open>
  \<open>outbox\<close> lists the calls \<open>this.child.postMessage(envelope, targetOrigin)\<close>, \<open>callbacks\<close>
  the event callbacks invoked with their argument, \<open>resolved\<close> the promises of \<open>get\<close>
  that were resolved (by \<open>uid\<close>) with their value, \<open>uncaught\<close> counts the exceptions that
  left a listener or a method. The transport is taken as total.
\<close>

definition ParentAPI :: "endpoint \<Rightarrow> jsval \<Rightarrow> jsval \<Rightarrow> parent_api" where
  "ParentAPI p co cid =
     \<lparr>parent = p, childOrigin = co, childId = cid, events = [], registered = [Emit],
      outbox = [], callbacks = [], resolved = [], frame_attached = True, uncaught = 0\<rparr>"

definition listener :: "msg \<Rightarrow> parent_api \<Rightarrow> parent_api" where
  "listener e s =
     (case sanitize e (childOrigin s) of
        None \<Rightarrow> s\<lparr>uncaught := Suc (uncaught s)\<rparr>
      | Some False \<Rightarrow> s
      | Some True \<Rightarrow>
          (let v = (if truthy (field (data e) ''value'') then field (data e) ''value'' else Obj []);
               d = field v ''data'';
               name = field v ''name''
           in if strict_eq (field (data e) ''postmate'') (Str ''emit'')
                 \<and> strict_eq (field (data e) ''childId'') (childId s)
              then (case to_key name of
                      None \<Rightarrow> s\<lparr>uncaught := Suc (uncaught s)\<rparr>
                    | Some n \<Rightarrow>
                        (case map_of (events s) n of
                           Some cbs \<Rightarrow> s\<lparr>callbacks := callbacks s @ map (\<lambda>c. (c, d)) cbs\<rparr>
                         | None \<Rightarrow>
                             (case inherited ObjectPrototype n of
                                Some x \<Rightarrow> s\<lparr>uncaught := Suc (uncaught s)\<rparr>
                              | None \<Rightarrow> s)))
              else s))"

text \<open>
  \<open>generateNewMessageId\<close>: \<open>++_messageId\<close> on the module's counter, passed in and out.
  A counter is kept as the count of its increments; as a value it is \<open>Num\<close> of that count.
\<close>

definition generateNewMessageId :: "nat \<Rightarrow> nat \<times> nat" where
  "generateNewMessageId messageId = (Suc messageId, Suc messageId)"

definition request_envelope :: "jsval \<Rightarrow> nat \<Rightarrow> jsval" where
  "request_envelope property uid =
     Obj [(''postmate'', Str ''request''), (''type'', Str messageType),
          (''property'', property), (''uid'', Num (int uid))]"

text \<open>\<open>get(property)\<close> returns the \<open>uid\<close> of the promise it creates and the counter.\<close>

definition get :: "jsval \<Rightarrow> nat \<Rightarrow> parent_api \<Rightarrow> (nat \<times> nat) \<times> parent_api" where
  "get property messageId s =
     (let (uid, messageId') = generateNewMessageId messageId
      in ((uid, messageId'),
          s\<lparr>registered := registered s @ [Transact uid],
            outbox := outbox s @ [(request_envelope property uid, childOrigin s)]\<rparr>))"

definition transact :: "nat \<Rightarrow> msg \<Rightarrow> parent_api \<Rightarrow> parent_api" where
  "transact uid e s =
     (if nullish (data e) then s\<lparr>uncaught := Suc (uncaught s)\<rparr>
      else if strict_eq (field (data e) ''uid'') (Num (int uid))
              \<and> strict_eq (field (data e) ''postmate'') (Str ''reply'')
              \<and> strict_eq (field (data e) ''childId'') (childId s)
        then s\<lparr>registered := removeAll (Transact uid) (registered s),
               resolved := resolved s @ [(uid, field (data e) ''value'')]\<rparr>
      else s)"

definition call_envelope :: "jsval \<Rightarrow> jsval \<Rightarrow> jsval" where
  "call_envelope property d =
     Obj [(''postmate'', Str ''call''), (''type'', Str messageType),
          (''property'', property), (''data'', d)]"

definition call :: "jsval \<Rightarrow> jsval \<Rightarrow> parent_api \<Rightarrow> parent_api" where
  "call property d s = s\<lparr>outbox := outbox s @ [(call_envelope property d, childOrigin s)]\<rparr>"

text \<open>
  \<open>on(eventName, callback)\<close>. For a name that \<open>Object.prototype\<close> defines,
  \<open>this.events[eventName]\<close> is truthy and has no \<open>push\<close>: a TypeError.
\<close>

definition on :: "string \<Rightarrow> nat \<Rightarrow> parent_api \<Rightarrow> parent_api" where
  "on eventName callback s =
     (case map_of (events s) eventName of
        Some cbs \<Rightarrow> s\<lparr>events := AList.update eventName (cbs @ [callback]) (events s)\<rparr>
      | None \<Rightarrow>
          (case inherited ObjectPrototype eventName of
             Some x \<Rightarrow> s\<lparr>uncaught := Suc (uncaught s)\<rparr>
           | None \<Rightarrow> s\<lparr>events := events s @ [(eventName, [callback])]\<rparr>))"

text \<open>
  \<open>destroy()\<close> removes \<open>this.listener\<close> from \<open>window\<close> and the frame from its parent
  node; a frame that is already detached has no parent node (a TypeError).
\<close>

definition destroy :: "parent_api \<Rightarrow> parent_api" where
  "destroy s =
     (let s1 = (if parent s = Window then s\<lparr>registered := removeAll Emit (registered s)\<rparr> else s)
      in if frame_attached s1 then s1\<lparr>frame_attached := False\<rparr>
         else s1\<lparr>uncaught := Suc (uncaught s1)\<rparr>)"

fun run_listener :: "plistener \<Rightarrow> msg \<Rightarrow> parent_api \<Rightarrow> parent_api" where
  "run_listener Emit e s = listener e s"
| "run_listener (Transact uid) e s = transact uid e s"

text \<open>
  A message event at the window runs the listeners registered there, in the order of
  their registration (each listener removes at most itself).
\<close>

definition deliver :: "msg \<Rightarrow> parent_api \<Rightarrow> parent_api" where
  "deliver e s = (if parent s = Window then fold (\<lambda>l. run_listener l e) (registered s) s else s)"

section \<open>Handshake state machine (initiator)\<close>

definition maxHandshakeRequests :: nat where
  "maxHandshakeRequests = 5"

definition handshake_interval :: nat where
  "handshake_interval = 500"

text \<open>
  The state of \<open>sendHandshake\<close>: the fields of \<open>this\<close>, the closure's \<open>attempt\<close> and
  \<open>responseInterval\<close> (whether the interval timer is armed), whether \<open>reply\<close> is
  registered, the promise, and the handshake envelopes posted so far, each with the time
  elapsed since the frame loaded and its target origin. \<open>target\<close> is
  \<open>resolveOrigin(url)\<close>, computed by the document and taken as given. An exception
  raised in \<open>reply\<close> leaves this state as it was.
\<close>

record postmate =
  hs_model :: jsval
  hs_childId :: jsval
  target :: string
  hs_childOrigin :: jsval
  attempt :: nat
  responseInterval :: bool
  elapsed :: nat
  listening :: bool
  promise :: "settlement option"
  handshakes :: "(nat \<times> jsval \<times> string) list"
  api :: "parent_api option"

text \<open>\<open>new Postmate({model, url, ...})\<close>, with the module's counter \<open>_childId\<close> before the call.\<close>

definition Postmate :: "jsval \<Rightarrow> string \<Rightarrow> nat \<Rightarrow> postmate" where
  "Postmate model url_origin counter =
     \<lparr>hs_model = (if truthy model then model else Obj []),
      hs_childId = Num (int (Suc counter)),
      target = url_origin, hs_childOrigin = Undefined, attempt = 0, responseInterval = False,
      elapsed = 0, listening = True, promise = None, handshakes = [], api = None\<rparr>"

definition handshake_envelope :: "postmate \<Rightarrow> jsval" where
  "handshake_envelope s =
     Obj [(''postmate'', Str ''handshake''), (''type'', Str messageType),
          (''model'', hs_model s), (''childId'', hs_childId s)]"

definition reply :: "msg \<Rightarrow> postmate \<Rightarrow> postmate" where
  "reply e s =
     (case sanitize e (Str (target s)) of
        None \<Rightarrow> s
      | Some False \<Rightarrow> s
      | Some True \<Rightarrow>
          if \<not> strict_eq (field (data e) ''childId'') (hs_childId s) then s
          else if strict_eq (field (data e) ''postmate'') (Str ''handshake-reply'')
            then s\<lparr>responseInterval := False, listening := False,
                   hs_childOrigin := Str (origin e),
                   promise := settle Fulfilled (promise s),
                   api := Some (ParentAPI Window (Str (origin e)) (hs_childId s))\<rparr>
          else s\<lparr>promise := settle (Rejected ''Failed handshake'') (promise s)\<rparr>)"

definition doSend :: "postmate \<Rightarrow> postmate" where
  "doSend s =
     (let a = Suc (attempt s)
      in if a > maxHandshakeRequests
         then s\<lparr>attempt := a, responseInterval := False,
                promise := settle (Rejected ''Handshake Timeout Reached'') (promise s)\<rparr>
         else s\<lparr>attempt := a,
                handshakes := handshakes s @ [(elapsed s, handshake_envelope s, target s)]\<rparr>)"

text \<open>The frame's load event: send at once, then arm the interval timer.\<close>

definition loaded :: "postmate \<Rightarrow> postmate" where
  "loaded s = (doSend s)\<lparr>responseInterval := True\<rparr>"

text \<open>The timer fires only while it is armed, one interval after it last fired.\<close>

definition tick :: "postmate \<Rightarrow> postmate" where
  "tick s =
     (if responseInterval s then doSend (s\<lparr>elapsed := elapsed s + handshake_interval\<rparr>) else s)"

datatype event = Tick | Message msg

fun step :: "event \<Rightarrow> postmate \<Rightarrow> postmate" where
  "step Tick s = tick s"
| "step (Message e) s = (if listening s then reply e s else s)"

section \<open>Handshake responder and remote API, responder side\<close>

text \<open>
  The state of \<open>Postmate.Model\<close> and of the \<open>ChildAPI\<close> it yields, which share
  \<open>this.model\<close>: the model's own properties and its prototype, the identifier and the
  parent origin recorded by the handshake, whether \<open>shake\<close> and the API's listener are
  registered, the promise of \<open>sendHandshakeReply\<close>, the messages posted (window, envelope,
  target origin), the model functions invoked with their arguments, and the exceptions
  that left a listener. \<open>parent_window\<close> is \<open>this.parent\<close>.
\<close>

record child =
  model :: "(string \<times> entry) list"
  model_proto :: proto
  ch_childId :: jsval
  parentOrigin :: jsval
  parent_window :: nat
  shaking :: bool
  serving :: bool
  ch_promise :: "settlement option"
  posted :: "(nat \<times> jsval \<times> jsval) list"
  invoked :: "(callee \<times> jsval list) list"
  raised :: nat

text \<open>\<open>new Postmate.Model(model)\<close> for a model that is an ordinary object.\<close>

definition Model :: "(string \<times> entry) list \<Rightarrow> nat \<Rightarrow> child" where
  "Model m pw =
     \<lparr>model = m, model_proto = ObjectPrototype, ch_childId = Undefined,
      parentOrigin = Undefined, parent_window = pw, shaking = True, serving = False,
      ch_promise = None, posted = [], invoked = [], raised = 0\<rparr>"

text \<open>
  \<open>Object.keys(defaults)\<close> with \<open>defaults[key]\<close> for each key: the own enumerable
  properties of an object, the characters of a string by index, nothing for a boolean or
  a number.
\<close>

fun own_entries :: "jsval \<Rightarrow> (string \<times> jsval) list" where
  "own_entries (Obj kvs) = map (\<lambda>k. (k, field (Obj kvs) k)) (remdups (map fst kvs))"
| "own_entries (Str s) = map (\<lambda>i. (show_nat i, Str [s ! i])) [0..<length s]"
| "own_entries v = []"

text \<open>
  The \<open>__proto__\<close> setter of \<open>Object.prototype\<close>: an object or \<open>null\<close> becomes the
  prototype, any other value is ignored.
\<close>

definition set_prototype :: "jsval \<Rightarrow> child \<Rightarrow> child" where
  "set_prototype v s =
     (case v of
        Obj kvs \<Rightarrow> s\<lparr>model_proto := Custom kvs\<rparr>
      | Null \<Rightarrow> s\<lparr>model_proto := NoPrototype\<rparr>
      | _ \<Rightarrow> s)"

text \<open>
  \<open>this.model[key] = v\<close>. The assignment sets an own property, except for the key
  \<open>__proto__\<close> when the model has no own property of that name and inherits the accessor
  of \<open>Object.prototype\<close>: then the setter runs and no own property is made.
\<close>

definition assign :: "string \<Rightarrow> jsval \<Rightarrow> child \<Rightarrow> child" where
  "assign key v s =
     (if key = ''__proto__'' \<and> map_of (model s) key = None
      then (case model_proto s of
              NoPrototype \<Rightarrow> s\<lparr>model := AList.update key (Val v) (model s)\<rparr>
            | ObjectPrototype \<Rightarrow> set_prototype v s
            | Custom kvs \<Rightarrow>
                (case map_of kvs key of
                   Some x \<Rightarrow> s\<lparr>model := AList.update key (Val v) (model s)\<rparr>
                 | None \<Rightarrow> set_prototype v s))
      else s\<lparr>model := AList.update key (Val v) (model s)\<rparr>)"

datatype outcome = Returns jsval | Throws | Pending

definition handshake_reply_envelope :: "jsval \<Rightarrow> jsval" where
  "handshake_reply_envelope cid =
     Obj [(''postmate'', Str ''handshake-reply''), (''type'', Str messageType), (''childId'', cid)]"

definition shake :: "msg \<Rightarrow> child \<Rightarrow> child" where
  "shake e s =
     (if nullish (data e) then s\<lparr>raised := Suc (raised s)\<rparr>
      else if \<not> truthy (field (data e) ''postmate'') then s
      else if strict_eq (field (data e) ''postmate'') (Str ''handshake'')
        then (let s1 = s\<lparr>shaking := False,
                         posted := posted s @
                           [(source e, handshake_reply_envelope (field (data e) ''childId''),
                             Str (origin e))],
                         ch_childId := field (data e) ''childId'',
                         parentOrigin := Str (origin e)\<rparr>;
                  defaults = field (data e) ''model'';
                  s2 = (if truthy defaults
                        then fold (\<lambda>(key, v). assign key v) (own_entries defaults) s1
                        else s1)
              in s2\<lparr>ch_promise := settle Fulfilled (ch_promise s2), serving := True\<rparr>)
      else s\<lparr>ch_promise := settle (Rejected ''Handshake Reply Failed'') (ch_promise s)\<rparr>)"

text \<open>
  A call of a function of the model is recorded in \<open>invoked\<close>; what comes of it is given
  by \<open>run\<close>: \<open>Returns v\<close> when the call returns \<open>v\<close> or a promise that is fulfilled with
  \<open>v\<close>, \<open>Throws\<close> when the call raises an exception, \<open>Pending\<close> when it returns a promise
  that is rejected or never settled (no exception, and no value).
\<close>

definition invoke :: "(callee \<Rightarrow> jsval list \<Rightarrow> outcome) \<Rightarrow> callee \<Rightarrow> jsval list \<Rightarrow> child
    \<Rightarrow> outcome \<times> child" where
  "invoke run f args s = (run f args, s\<lparr>invoked := invoked s @ [(f, args)]\<rparr>)"

text \<open>
  \<open>resolveValue(model, property)\<close>, with what comes of the promise it returns; \<open>Throws\<close>
  also when the property cannot be turned into a key.
\<close>

definition resolveValue :: "(callee \<Rightarrow> jsval list \<Rightarrow> outcome) \<Rightarrow> jsval \<Rightarrow> child
    \<Rightarrow> outcome \<times> child" where
  "resolveValue run property s =
     (case to_key property of
        None \<Rightarrow> (Throws, s)
      | Some k \<Rightarrow>
          (case get_property (model s) (model_proto s) k of
             Func f \<Rightarrow> invoke run f [] s
           | Val v \<Rightarrow> (Returns v, s)))"

definition reply_envelope :: "jsval \<Rightarrow> jsval \<Rightarrow> jsval \<Rightarrow> jsval \<Rightarrow> jsval" where
  "reply_envelope property cid uid v =
     Obj [(''property'', property), (''postmate'', Str ''reply''), (''type'', Str messageType),
          (''childId'', cid), (''uid'', uid), (''value'', v)]"

text \<open>
  The message listener of \<open>ChildAPI\<close>. An exception leaves the listener when
  \<open>sanitize\<close>, the conversion of the property to a key, or the called function raises.
  The result of a called function is dropped; a reply is posted once \<open>resolveValue\<close>
  yields a value.
\<close>

definition child_listener :: "(callee \<Rightarrow> jsval list \<Rightarrow> outcome) \<Rightarrow> msg \<Rightarrow> child \<Rightarrow> child" where
  "child_listener run e s =
     (case sanitize e (parentOrigin s) of
        None \<Rightarrow> s\<lparr>raised := Suc (raised s)\<rparr>
      | Some False \<Rightarrow> s
      | Some True \<Rightarrow>
          (let property = field (data e) ''property'';
               uid = field (data e) ''uid'';
               d = field (data e) ''data''
           in if strict_eq (field (data e) ''postmate'') (Str ''call'')
              then (case to_key property of
                      None \<Rightarrow> s\<lparr>raised := Suc (raised s)\<rparr>
                    | Some k \<Rightarrow>
                        if has_property (model s) (model_proto s) k
                        then (case get_property (model s) (model_proto s) k of
                                Func f \<Rightarrow>
                                  (case invoke run f [d] s of
                                     (r, s') \<Rightarrow>
                                       (case r of
                                          Throws \<Rightarrow> s'\<lparr>raised := Suc (raised s')\<rparr>
                                        | Returns v \<Rightarrow> s'
                                        | Pending \<Rightarrow> s'))
                              | Val v \<Rightarrow> s)
                        else s)
              else (case resolveValue run property s of
                      (r, s') \<Rightarrow>
                        (case r of
                           Throws \<Rightarrow> s'\<lparr>raised := Suc (raised s')\<rparr>
                         | Pending \<Rightarrow> s'
                         | Returns v \<Rightarrow>
                             s'\<lparr>posted := posted s' @
                                  [(source e, reply_envelope property (ch_childId s') uid v,
                                    Str (origin e))]\<rparr>))))"

definition emit_envelope :: "jsval \<Rightarrow> jsval \<Rightarrow> jsval \<Rightarrow> jsval" where
  "emit_envelope cid name d =
     Obj [(''postmate'', Str ''emit''), (''type'', Str messageType), (''childId'', cid),
          (''value'', Obj [(''name'', name), (''data'', d)])]"

definition emit :: "jsval \<Rightarrow> jsval \<Rightarrow> child \<Rightarrow> child" where
  "emit name d s =
     s\<lparr>posted := posted s @ [(parent_window s, emit_envelope (ch_childId s) name d, parentOrigin s)]\<rparr>"

text \<open>
  A message event at the responder's window runs the listeners that were registered
  when it arrived: \<open>shake\<close> until the handshake, the API's listener after it.
\<close>

definition receive :: "(callee \<Rightarrow> jsval list \<Rightarrow> outcome) \<Rightarrow> msg \<Rightarrow> child \<Rightarrow> child" where
  "receive run e s =
     (let s1 = (if shaking s then shake e s else s)
      in if serving s then child_listener run e s1 else s1)"

section \<open>Scenarios of the handshake\<close>

text \<open>
  The first \<open>n\<close> announcements of an initiator: the same envelope to the same origin,
  one interval apart, the first when the frame has loaded.
\<close>

definition announced :: "postmate \<Rightarrow> nat \<Rightarrow> (nat \<times> jsval \<times> string) list" where
  "announced s n = map (\<lambda>i. (i * handshake_interval, handshake_envelope s, target s)) [0..<n]"

text \<open>An acknowledgment that \<open>reply\<close> accepts: sanitized against the target origin, with the
  initiator's identifier and the kind \<open>handshake-reply\<close>.\<close>

definition valid_ack :: "msg \<Rightarrow> postmate \<Rightarrow> bool" where
  "valid_ack e s =
     (sanitize e (Str (target s)) = Some True
      \<and> strict_eq (field (data e) ''childId'') (hs_childId s)
      \<and> strict_eq (field (data e) ''postmate'') (Str ''handshake-reply''))"

text \<open>The initiator after its attempt \<open>n + 1\<close>, still waiting, and after its budget is spent.\<close>

definition awaiting :: "postmate \<Rightarrow> nat \<Rightarrow> postmate" where
  "awaiting s0 n =
     s0\<lparr>attempt := Suc n, responseInterval := True, elapsed := n * handshake_interval,
        handshakes := announced s0 (Suc n)\<rparr>"

definition timed_out :: "postmate \<Rightarrow> postmate" where
  "timed_out s0 =
     s0\<lparr>attempt := Suc maxHandshakeRequests, responseInterval := False,
        elapsed := maxHandshakeRequests * handshake_interval,
        handshakes := announced s0 maxHandshakeRequests,
        promise := Some (Rejected ''Handshake Timeout Reached'')\<rparr>"

text \<open>The initiator \<open>n\<close> timer ticks after the frame loaded, when no message has arrived.\<close>

definition no_reply :: "jsval \<Rightarrow> string \<Rightarrow> nat \<Rightarrow> nat \<Rightarrow> postmate" where
  "no_reply m u c n = (tick ^^ n) (loaded (Postmate m u c))"

text \<open>The acknowledgment a responder sends to the initiator with identifier 1.\<close>

definition ack1 :: msg where
  "ack1 = \<lparr>origin = ''https://child.example'',
           data = handshake_reply_envelope (Num 1), source = 1\<rparr>"

section \<open>Scenarios of the remote API\<close>

text \<open>When the named property exists in the responder's model (\<open>property in this.model\<close>,
  own or inherited) and is a function.\<close>

definition callable :: "child \<Rightarrow> string \<Rightarrow> bool" where
  "callable s k =
     (has_property (model s) (model_proto s) k
      \<and> typeof_entry (get_property (model s) (model_proto s) k) = ''function'')"

text \<open>
  A responder whose model has two plain values and one function. In \<open>run0\<close> every
  function call returns 12. In \<open>run1\<close> the model's own functions return 12,
  \<open>Object.prototype.toString\<close> returns \<open>[object Object]\<close> as it does on an ordinary
  object, and \<open>__defineGetter__\<close> and \<open>__defineSetter__\<close> raise the TypeError they raise
  when their second argument is no function; the scenarios call no other built-in.
\<close>

definition c0 :: child where
  "c0 = Model [(''height'', Val (Num 3)), (''width'', Val (Num 4)), (''area'', Func (User 0))] 7"

definition run0 :: "callee \<Rightarrow> jsval list \<Rightarrow> outcome" where
  "run0 f args = Returns (Num 12)"

definition run1 :: "callee \<Rightarrow> jsval list \<Rightarrow> outcome" where
  "run1 f args =
     (case f of
        User n \<Rightarrow> Returns (Num 12)
      | Builtin k \<Rightarrow>
          if k = ''toString'' then Returns (Str ''[object Object]'')
          else if k = ''__defineGetter__'' then Throws
          else if k = ''__defineSetter__'' then Throws
          else Pending)"

text \<open>The handshake of the initiator with identifier 1, and the responder after it.\<close>

definition hs1 :: msg where
  "hs1 = \<lparr>origin = ''https://parent.example'',
          data = Obj [(''postmate'', Str ''handshake''), (''type'', Str messageType),
                      (''model'', Obj [(''greeting'', Str ''hi''), (''height'', Num 9)]),
                      (''childId'', Num 1)],
          source = 3\<rparr>"

definition c1 :: child where
  "c1 = shake hs1 c0"

text \<open>The initiator's API for that pairing, and messages of the parent to the responder.\<close>

definition api1 :: parent_api where
  "api1 = ParentAPI Window (Str ''https://child.example'') (Num 1)"

definition call_area :: msg where
  "call_area = \<lparr>origin = ''https://parent.example'',
                data = call_envelope (Str ''area'') (Num 2), source = 3\<rparr>"

definition call_height :: msg where
  "call_height = \<lparr>origin = ''https://parent.example'',
                  data = call_envelope (Str ''height'') (Num 2), source = 3\<rparr>"

definition call_depth :: msg where
  "call_depth = \<lparr>origin = ''https://parent.example'',
                 data = call_envelope (Str ''depth'') (Num 2), source = 3\<rparr>"

definition request_depth :: msg where
  "request_depth = \<lparr>origin = ''https://parent.example'',
                    data = request_envelope (Str ''depth'') 1, source = 3\<rparr>"

text \<open>Messages that name properties which the model does not define but inherits.\<close>

definition call_toString :: msg where
  "call_toString = \<lparr>origin = ''https://parent.example'',
                    data = call_envelope (Str ''toString'') (Num 2), source = 3\<rparr>"

definition request_toString :: msg where
  "request_toString = \<lparr>origin = ''https://parent.example'',
                       data = request_envelope (Str ''toString'') 1, source = 3\<rparr>"

definition request_defineGetter :: msg where
  "request_defineGetter = \<lparr>origin = ''https://parent.example'',
                           data = request_envelope (Str ''__defineGetter__'') 2, source = 3\<rparr>"

section \<open>Actions of the listeners\<close>

text \<open>
  A message is acted upon by a listener when the listener changes the state: it posts,
  invokes, settles a promise, or registers or removes a listener. An exception that leaves
  the listener is counted in \<open>uncaught\<close> or \<open>raised\<close> and is no action.
\<close>

definition acted_api :: "parent_api \<Rightarrow> parent_api \<Rightarrow> bool" where
  "acted_api s s' = (s'\<lparr>uncaught := uncaught s\<rparr> \<noteq> s)"

definition acted_child :: "child \<Rightarrow> child \<Rightarrow> bool" where
  "acted_child s s' = (s'\<lparr>raised := raised s\<rparr> \<noteq> s)"

text \<open>A message bears the shared type tag and comes from the allowed origin, when that
  is a string.\<close>

definition authentic :: "msg \<Rightarrow> jsval \<Rightarrow> bool" where
  "authentic e allowed =
     (field (data e) ''type'' = Str messageType
      \<and> (typeof allowed = ''string'' \<longrightarrow> allowed = Str (origin e)))"

text \<open>A reply that the listener of \<open>get\<close> with this \<open>uid\<close> accepts for the identifier \<open>cid\<close>.\<close>

definition matching_reply :: "msg \<Rightarrow> nat \<Rightarrow> jsval \<Rightarrow> bool" where
  "matching_reply e uid cid =
     (field (data e) ''uid'' = Num (int uid) \<and> field (data e) ''postmate'' = Str ''reply''
      \<and> strict_eq (field (data e) ''childId'') cid)"

text \<open>
  An initiator that awaits its acknowledgment; the API with a callback for \<open>resize\<close>;
  the API after \<open>get('height')\<close>, without and with that callback.
\<close>

definition h0 :: postmate where
  "h0 = Postmate (Obj [(''greeting'', Str ''hi'')]) ''https://child.example'' 0"

definition api3 :: parent_api where
  "api3 = on ''resize'' 5 api1"

definition api2 :: parent_api where
  "api2 = snd (get (Str ''height'') 0 api1)"

definition api4 :: parent_api where
  "api4 = snd (get (Str ''height'') 0 api3)"

text \<open>
  Messages: the request that \<open>get('height')\<close> posts, as the responder receives it; a
  reply to it from the child; a reply from another origin without the type tag; an
  emission of the child.
\<close>

definition request_height :: msg where
  "request_height = \<lparr>origin = ''https://parent.example'',
                     data = request_envelope (Str ''height'') 1, source = 3\<rparr>"

definition late_reply :: msg where
  "late_reply = \<lparr>origin = ''https://child.example'',
                 data = reply_envelope (Str ''height'') (Num 1) (Num 1) (Num 9), source = 1\<rparr>"

definition forged_reply :: msg where
  "forged_reply = \<lparr>origin = ''https://evil.example'',
                   data = Obj [(''postmate'', Str ''reply''), (''uid'', Num 1),
                               (''childId'', Num 1), (''value'', Str ''forged'')],
                   source = 9\<rparr>"

definition emit_resize :: msg where
  "emit_resize = \<lparr>origin = ''https://child.example'',
                  data = emit_envelope (Num 1) (Str ''resize'') (Num 640), source = 1\<rparr>"

section \<open>Properties of values and keys\<close>

lemma Rep_num [simp]:
  "Rep_jsnum (num i) = max (- 9007199254740992) (min 9007199254740992 i)"
  by (simp add: num_def Abs_jsnum_inverse max_safe_def)

lemma strict_eq_Number [simp]: "strict_eq a (Number n) = (a = Number n)"
  by (cases a) (auto simp: strict_eq_def)

lemma strict_eq_Str [simp]: "strict_eq a (Str x) = (a = Str x)"
  by (cases a) (auto simp: strict_eq_def)

lemma typeof_not_function [simp]: "typeof v \<noteq> ''function''"
  by (cases v) simp_all

lemma digit_char_inj: "a < 10 \<Longrightarrow> b < 10 \<Longrightarrow> digit_char a = digit_char b \<Longrightarrow> a = b"
proof -
  assume a: "a < 10" and b: "b < 10" and e: "digit_char a = digit_char b"
  from e have "of_char (char_of (48 + a) :: char) = (of_char (char_of (48 + b) :: char) :: nat)"
    by (simp add: digit_char_def)
  then have "(48 + a) mod 256 = (48 + b) mod 256"
    by (simp only: of_char_of)
  with a b show ?thesis by simp
qed

lemma show_nat_nonempty: "show_nat n \<noteq> []" "[] \<noteq> show_nat n"
  by (subst show_nat.simps, simp)+

lemma show_nat_inj: "show_nat n = show_nat m \<Longrightarrow> n = m"
proof (induction n arbitrary: m rule: show_nat.induct)
  case (1 n)
  show ?case
  proof (cases "n < 10")
    case True
    then have n: "show_nat n = [digit_char n]" by (subst show_nat.simps) simp
    show ?thesis
    proof (cases "m < 10")
      case True
      then have "show_nat m = [digit_char m]" by (subst show_nat.simps) simp
      with n "1.prems" \<open>n < 10\<close> True show ?thesis by (simp add: digit_char_inj)
    next
      case False
      then have "show_nat m = show_nat (m div 10) @ [digit_char (m mod 10)]"
        by (subst show_nat.simps) simp
      with n "1.prems" show ?thesis by (simp add: show_nat_nonempty)
    qed
  next
    case False
    then have n: "show_nat n = show_nat (n div 10) @ [digit_char (n mod 10)]"
      by (subst show_nat.simps) simp
    show ?thesis
    proof (cases "m < 10")
      case True
      then have "show_nat m = [digit_char m]" by (subst show_nat.simps) simp
      with n "1.prems" show ?thesis by (simp add: show_nat_nonempty)
    next
      case m: False
      then have "show_nat m = show_nat (m div 10) @ [digit_char (m mod 10)]"
        by (subst show_nat.simps) simp
      with n "1.prems" have e: "show_nat (n div 10) = show_nat (m div 10)"
        and d: "digit_char (n mod 10) = digit_char (m mod 10)" by simp_all
      from "1.IH" [OF False e] have q: "n div 10 = m div 10" .
      from d have r: "n mod 10 = m mod 10" by (simp add: digit_char_inj)
      from q r show ?thesis by (metis div_mult_mod_eq)
    qed
  qed
qed

lemma distinct_own_entries: "distinct (map fst (own_entries d))"
proof (cases d)
  case (Str s)
  have "inj_on show_nat (set [0..<length s])"
    by (rule inj_onI) (rule show_nat_inj)
  then show ?thesis using Str by (simp add: comp_def distinct_map)
next
  case (Obj kvs)
  then show ?thesis by (simp add: comp_def)
qed simp_all

section \<open>Properties of the sanitizer\<close>

text \<open>What an accepted message is known to satisfy: the type tag and, when the allowed
  origin is a string, the origin.\<close>

lemma sanitize_accepts:
  "sanitize m a = Some True \<Longrightarrow>
     field (data m) ''type'' = Str messageType \<and> (typeof a = ''string'' \<longrightarrow> a = Str (origin m))"
  by (auto simp: sanitize_def split: if_splits option.splits)

text \<open>A payload without the marker key, or with another type tag, is rejected.\<close>

lemma sanitize_rejects_unmarked:
  "\<not> has_own (data m) ''postmate'' \<or> field (data m) ''type'' \<noteq> Str messageType
     \<Longrightarrow> sanitize m a = Some False"
  by (cases "data m") (auto simp: sanitize_def)

text \<open>
  C2. Claim: a message whose payload lacks the marker key, or whose type tag differs from
  the shared constant, or whose kind is not one of the six recognised kinds, is rejected
  by \<open>sanitize\<close>. The first two parts hold (\<open>sanitize_rejects_unmarked\<close>). The third
  does not: the kind is looked up in the table \<open>messageTypes\<close> through the prototype
  chain, so a kind that names a property of \<open>Object.prototype\<close>, here \<open>constructor\<close>, is
  not one of the six kinds of the table and yet the message is accepted.
\<close>

theorem sanitize_inherited_kind:
  "map_of messageTypes ''constructor'' = None
   \<and> sanitize \<lparr>origin = ''https://child.example'',
                data = Obj [(''postmate'', Str ''constructor''), (''type'', Str messageType)],
                source = 0\<rparr> (Str ''https://child.example'') = Some True"
  by (simp add: sanitize_def messageTypes_def get_property_def inherited_def
        from_object_prototype_def object_prototype_keys_def)

text \<open>
  C3. When origin checking is enabled (the allowed origin is a string) and the message's
  origin differs from it, \<open>sanitize\<close> returns false; when it is disabled (the allowed
  origin is not a string), two messages with the same payload get the same result,
  whatever their origins. Both hold for every message, with or without a correct marker.
\<close>

theorem sanitize_origin:
  "(origin m \<noteq> expected \<longrightarrow> sanitize m (Str expected) = Some False)
   \<and> (typeof allowed \<noteq> ''string'' \<and> data m1 = data m2
        \<longrightarrow> sanitize m1 allowed = sanitize m2 allowed)"
  by (simp add: sanitize_def)

theorem sanitize_origin_witness:
  "sanitize \<lparr>origin = ''https://evil.example'',
              data = Obj [(''postmate'', Str ''reply''), (''type'', Str messageType)],
              source = 0\<rparr> (Str ''https://child.example'') = Some False
   \<and> sanitize \<lparr>origin = ''https://evil.example'',
              data = Obj [(''postmate'', Str ''reply''), (''type'', Str messageType)],
              source = 0\<rparr> (Bool False) = Some True
   \<and> sanitize \<lparr>origin = ''https://child.example'',
              data = Obj [(''postmate'', Str ''reply''), (''type'', Str messageType)],
              source = 0\<rparr> (Bool False) = Some True"
  using sanitize_origin [of "\<lparr>origin = ''https://evil.example'',
              data = Obj [(''postmate'', Str ''reply''), (''type'', Str messageType)],
              source = 0\<rparr>" "''https://child.example''" "Bool False"
          "\<lparr>origin = ''https://evil.example'',
              data = Obj [(''postmate'', Str ''reply''), (''type'', Str messageType)],
              source = 0\<rparr>"
          "\<lparr>origin = ''https://child.example'',
              data = Obj [(''postmate'', Str ''reply''), (''type'', Str messageType)],
              source = 0\<rparr>"]
  by (simp add: sanitize_def messageTypes_def get_property_def)

section \<open>Properties of the handshake\<close>

lemma announced_Suc:
  "announced s (Suc n) = announced s n @ [(n * handshake_interval, handshake_envelope s, target s)]"
  by (simp add: announced_def)

lemma loaded_Postmate: "loaded (Postmate m u c) = awaiting (Postmate m u c) 0"
  by (simp add: loaded_def doSend_def Postmate_def awaiting_def announced_def
      maxHandshakeRequests_def handshake_envelope_def)

lemma tick_awaiting:
  "Suc n < maxHandshakeRequests \<Longrightarrow>
     tick (awaiting (Postmate m u c) n) = awaiting (Postmate m u c) (Suc n)"
  by (simp add: tick_def doSend_def Postmate_def awaiting_def announced_Suc
      handshake_envelope_def)

lemma ticks_awaiting:
  "n < maxHandshakeRequests \<Longrightarrow>
     (tick ^^ n) (loaded (Postmate m u c)) = awaiting (Postmate m u c) n"
proof (induction n)
  case 0
  show ?case by (simp add: loaded_Postmate)
next
  case (Suc n)
  then show ?case by (simp add: tick_awaiting)
qed

lemma tick_last:
  "tick (awaiting (Postmate m u c) (maxHandshakeRequests - 1)) = timed_out (Postmate m u c)"
  by (simp add: tick_def doSend_def Postmate_def awaiting_def timed_out_def settle_def
      maxHandshakeRequests_def)

lemma tick_timed_out: "tick (timed_out (Postmate m u c)) = timed_out (Postmate m u c)"
  by (simp add: tick_def timed_out_def)

lemma ticks_timed_out:
  "maxHandshakeRequests \<le> n \<Longrightarrow>
     (tick ^^ n) (loaded (Postmate m u c)) = timed_out (Postmate m u c)"
proof (induction n)
  case 0
  then show ?case by (simp add: maxHandshakeRequests_def)
next
  case (Suc n)
  show ?case
  proof (cases "maxHandshakeRequests \<le> n")
    case True
    with Suc.IH show ?thesis by (simp add: tick_timed_out)
  next
    case False
    with Suc.prems have n: "n = maxHandshakeRequests - 1" by simp
    have "n < maxHandshakeRequests" using n by (simp add: maxHandshakeRequests_def)
    then have "(tick ^^ n) (loaded (Postmate m u c)) = awaiting (Postmate m u c) n"
      by (rule ticks_awaiting)
    then show ?thesis using n tick_last [of m u c] by simp
  qed
qed

lemma settled_fixed:
  "\<not> listening s \<Longrightarrow> \<not> responseInterval s \<Longrightarrow> fold step evs s = s"
proof (induction evs)
  case Nil
  show ?case by simp
next
  case (Cons ev evs)
  have "step ev s = s" using Cons.prems by (cases ev) (simp_all add: tick_def)
  then show ?case using Cons by simp
qed

lemma ack_awaiting:
  assumes "valid_ack e (awaiting (Postmate m u c) n)"
  shows "step (Message e) (awaiting (Postmate m u c) n) =
           (awaiting (Postmate m u c) n)\<lparr>responseInterval := False, listening := False,
              hs_childOrigin := Str (origin e), promise := Some Fulfilled,
              api := Some (ParentAPI Window (Str (origin e)) (Num (int (Suc c))))\<rparr>"
  using assms
  by (simp add: valid_ack_def reply_def awaiting_def Postmate_def settle_def)

text \<open>
  C4. If no reply arrives, the initiator posts its handshake envelope exactly
  \<open>maxHandshakeRequests\<close> (5) times, at load and then every \<open>handshake_interval\<close> (500),
  and the next tick cancels the timer and rejects the promise with the timeout reason;
  further ticks post nothing. If a valid acknowledgment arrives after attempt \<open>n + 1\<close>
  (at most the fifth), the promise is fulfilled, the timer is cancelled and the listener
  removed, no envelope has been added, and no later event changes the state: no further
  handshake is posted and the promise is settled once.
\<close>

theorem handshake_retry:
  "(n < maxHandshakeRequests \<longrightarrow>
      handshakes (no_reply m u c n) = announced (Postmate m u c) (Suc n)
      \<and> promise (no_reply m u c n) = None
      \<and> responseInterval (no_reply m u c n))
   \<and> (maxHandshakeRequests \<le> n \<longrightarrow>
      handshakes (no_reply m u c n) = announced (Postmate m u c) maxHandshakeRequests
      \<and> promise (no_reply m u c n) = Some (Rejected ''Handshake Timeout Reached'')
      \<and> \<not> responseInterval (no_reply m u c n))
   \<and> (n < maxHandshakeRequests \<and> valid_ack e (no_reply m u c n) \<longrightarrow>
      promise (step (Message e) (no_reply m u c n)) = Some Fulfilled
      \<and> \<not> responseInterval (step (Message e) (no_reply m u c n))
      \<and> \<not> listening (step (Message e) (no_reply m u c n))
      \<and> handshakes (step (Message e) (no_reply m u c n)) = announced (Postmate m u c) (Suc n)
      \<and> (\<forall>evs. fold step evs (step (Message e) (no_reply m u c n))
                  = step (Message e) (no_reply m u c n)))"
proof (intro conjI impI)
  assume n: "n < maxHandshakeRequests"
  then have s: "no_reply m u c n = awaiting (Postmate m u c) n"
    unfolding no_reply_def by (rule ticks_awaiting)
  show "handshakes (no_reply m u c n) = announced (Postmate m u c) (Suc n)"
    by (simp add: s awaiting_def)
  show "promise (no_reply m u c n) = None"
    by (simp add: s awaiting_def Postmate_def)
  show "responseInterval (no_reply m u c n)"
    by (simp add: s awaiting_def)
next
  assume n: "maxHandshakeRequests \<le> n"
  then have s: "no_reply m u c n = timed_out (Postmate m u c)"
    unfolding no_reply_def by (rule ticks_timed_out)
  show "handshakes (no_reply m u c n) = announced (Postmate m u c) maxHandshakeRequests"
    by (simp add: s timed_out_def)
  show "promise (no_reply m u c n) = Some (Rejected ''Handshake Timeout Reached'')"
    by (simp add: s timed_out_def)
  show "\<not> responseInterval (no_reply m u c n)"
    by (simp add: s timed_out_def)
next
  assume a: "n < maxHandshakeRequests \<and> valid_ack e (no_reply m u c n)"
  then have s: "no_reply m u c n = awaiting (Postmate m u c) n"
    unfolding no_reply_def by (simp add: ticks_awaiting)
  with a have v: "valid_ack e (awaiting (Postmate m u c) n)" by simp
  note r = ack_awaiting [OF v]
  show "promise (step (Message e) (no_reply m u c n)) = Some Fulfilled"
    unfolding s r by simp
  show ni: "\<not> responseInterval (step (Message e) (no_reply m u c n))"
    unfolding s r by simp
  show nl: "\<not> listening (step (Message e) (no_reply m u c n))"
    unfolding s r by simp
  show "handshakes (step (Message e) (no_reply m u c n)) = announced (Postmate m u c) (Suc n)"
    unfolding s r by (simp add: awaiting_def)
  show "\<forall>evs. fold step evs (step (Message e) (no_reply m u c n))
                  = step (Message e) (no_reply m u c n)"
    using settled_fixed [OF nl ni] by blast
qed

theorem handshake_retry_witness:
  "map fst (handshakes (no_reply (Obj [(''greeting'', Str ''hi'')]) ''https://child.example'' 0 2))
     = [0, 500, 1000]
   \<and> promise (no_reply (Obj [(''greeting'', Str ''hi'')]) ''https://child.example'' 0 2) = None
   \<and> map fst (handshakes (no_reply (Obj [(''greeting'', Str ''hi'')]) ''https://child.example'' 0 7))
     = [0, 500, 1000, 1500, 2000]
   \<and> promise (no_reply (Obj [(''greeting'', Str ''hi'')]) ''https://child.example'' 0 7)
     = Some (Rejected ''Handshake Timeout Reached'')
   \<and> valid_ack ack1 (no_reply (Obj [(''greeting'', Str ''hi'')]) ''https://child.example'' 0 2)
   \<and> promise (step (Message ack1)
        (no_reply (Obj [(''greeting'', Str ''hi'')]) ''https://child.example'' 0 2)) = Some Fulfilled
   \<and> map fst (handshakes (fold step [Tick, Message ack1, Tick] (step (Message ack1)
        (no_reply (Obj [(''greeting'', Str ''hi'')]) ''https://child.example'' 0 2))))
     = [0, 500, 1000]"
proof -
  have v: "valid_ack ack1 (no_reply (Obj [(''greeting'', Str ''hi'')]) ''https://child.example'' 0 2)"
  proof -
    have "no_reply (Obj [(''greeting'', Str ''hi'')]) ''https://child.example'' 0 2
            = awaiting (Postmate (Obj [(''greeting'', Str ''hi'')]) ''https://child.example'' 0) 2"
      unfolding no_reply_def by (rule ticks_awaiting) (simp add: maxHandshakeRequests_def)
    then show ?thesis
      by (simp add: valid_ack_def awaiting_def Postmate_def ack1_def handshake_reply_envelope_def
          sanitize_def messageTypes_def get_property_def strict_eq_def)
  qed
  have lt: "(2::nat) < maxHandshakeRequests" and ge: "maxHandshakeRequests \<le> (7::nat)"
    by (simp_all add: maxHandshakeRequests_def)
  note t2 = handshake_retry [of 2 "Obj [(''greeting'', Str ''hi'')]" "''https://child.example''" 0 ack1]
  note t7 = handshake_retry [of 7 "Obj [(''greeting'', Str ''hi'')]" "''https://child.example''" 0 ack1]
  have u: "[0..<3] = [0, 1, 2]" "[0..<5] = [0, 1, 2, 3, 4]"
    by (simp_all add: upt_rec)
  have a1: "handshakes (no_reply (Obj [(''greeting'', Str ''hi'')]) ''https://child.example'' 0 2)
      = announced (Postmate (Obj [(''greeting'', Str ''hi'')]) ''https://child.example'' 0) (Suc 2)"
    using t2 lt by blast
  have a2: "promise (no_reply (Obj [(''greeting'', Str ''hi'')]) ''https://child.example'' 0 2) = None"
    using t2 lt by blast
  have a3: "handshakes (no_reply (Obj [(''greeting'', Str ''hi'')]) ''https://child.example'' 0 7)
      = announced (Postmate (Obj [(''greeting'', Str ''hi'')]) ''https://child.example'' 0)
          maxHandshakeRequests"
    using t7 ge by blast
  have a4: "promise (no_reply (Obj [(''greeting'', Str ''hi'')]) ''https://child.example'' 0 7)
      = Some (Rejected ''Handshake Timeout Reached'')"
    using t7 ge by blast
  have a5: "promise (step (Message ack1)
        (no_reply (Obj [(''greeting'', Str ''hi'')]) ''https://child.example'' 0 2)) = Some Fulfilled"
    using t2 lt v by blast
  have a6: "fold step [Tick, Message ack1, Tick] (step (Message ack1)
        (no_reply (Obj [(''greeting'', Str ''hi'')]) ''https://child.example'' 0 2))
      = step (Message ack1)
        (no_reply (Obj [(''greeting'', Str ''hi'')]) ''https://child.example'' 0 2)"
    using t2 lt v by blast
  have a7: "handshakes (step (Message ack1)
        (no_reply (Obj [(''greeting'', Str ''hi'')]) ''https://child.example'' 0 2))
      = announced (Postmate (Obj [(''greeting'', Str ''hi'')]) ''https://child.example'' 0) (Suc 2)"
    using t2 lt v by blast
  have n: "announced s (Suc 2) = map (\<lambda>i. (i * 500, handshake_envelope s, target s)) [0, 1, 2]"
    "announced s maxHandshakeRequests
       = map (\<lambda>i. (i * 500, handshake_envelope s, target s)) [0, 1, 2, 3, 4]" for s
    by (simp_all add: announced_def u handshake_interval_def maxHandshakeRequests_def
        numeral_3_eq_3 [symmetric])
  show ?thesis
    unfolding a6 a7 a1 a2 a3 a4 a5 n using v by simp
qed

section \<open>Properties of the responder\<close>

lemma assign_other:
  "k' \<noteq> k \<Longrightarrow> map_of (model (assign k' v s)) k = map_of (model s) k"
  by (auto simp: assign_def set_prototype_def update_conv' split: proto.splits jsval.splits option.splits)

lemma assign_same:
  "k \<noteq> ''__proto__'' \<or> map_of (model s) k \<noteq> None
     \<Longrightarrow> map_of (model (assign k v s)) k = Some (Val v)"
  by (auto simp: assign_def update_conv')

lemma merge_absent:
  "map_of kvs k = None
     \<Longrightarrow> map_of (model (fold (\<lambda>(key, v). assign key v) kvs s)) k = map_of (model s) k"
proof (induction kvs arbitrary: s)
  case Nil
  show ?case by simp
next
  case (Cons p kvs)
  obtain k' v' where p: "p = (k', v')" by (cases p)
  with Cons.prems have ne: "k' \<noteq> k" and r: "map_of kvs k = None"
    by (simp_all split: if_splits)
  show ?case using Cons.IH [OF r] by (simp add: p assign_other [OF ne])
qed

lemma merge_present:
  "distinct (map fst kvs) \<Longrightarrow> map_of kvs k = Some v
     \<Longrightarrow> k \<noteq> ''__proto__'' \<or> map_of (model s) k \<noteq> None
     \<Longrightarrow> map_of (model (fold (\<lambda>(key, v). assign key v) kvs s)) k = Some (Val v)"
proof (induction kvs arbitrary: s)
  case Nil
  then show ?case by simp
next
  case (Cons p kvs)
  obtain k' v' where p: "p = (k', v')" by (cases p)
  show ?case
  proof (cases "k' = k")
    case True
    with Cons.prems p have v: "v' = v" and r: "map_of kvs k = None"
      by (auto simp: map_of_eq_None_iff)
    have "map_of (model (assign k v s)) k = Some (Val v)"
      using Cons.prems(3) by (rule assign_same)
    then show ?thesis using merge_absent [OF r] by (simp add: p True v)
  next
    case False
    with Cons.prems p have r: "map_of kvs k = Some v" and d: "distinct (map fst kvs)"
      by simp_all
    have "k \<noteq> ''__proto__'' \<or> map_of (model (assign k' v' s)) k \<noteq> None"
      using Cons.prems(3) by (simp add: assign_other [OF False])
    from Cons.IH [OF d r this] show ?thesis by (simp add: p)
  qed
qed

lemma shake_handshake_model:
  "field (data e) ''postmate'' = Str ''handshake'' \<Longrightarrow>
     model (shake e s) =
       model (fold (\<lambda>(key, v). assign key v) (own_entries (field (data e) ''model''))
                (s\<lparr>shaking := False,
                   posted := posted s @
                     [(source e, handshake_reply_envelope (field (data e) ''childId''),
                       Str (origin e))],
                   ch_childId := field (data e) ''childId'',
                   parentOrigin := Str (origin e)\<rparr>))"
proof -
  assume h: "field (data e) ''postmate'' = Str ''handshake''"
  then have n: "\<not> nullish (data e)" by (cases "data e") auto
  have f: "\<not> truthy d \<Longrightarrow> own_entries d = []" for d by (cases d) auto
  show ?thesis using h n by (auto simp: shake_def strict_eq_def Let_def f)
qed

lemma c1_state:
  "c1 = \<lparr>model = [(''height'', Val (Num 9)), (''width'', Val (Num 4)), (''area'', Func (User 0)),
                  (''greeting'', Val (Str ''hi''))],
         model_proto = ObjectPrototype, ch_childId = Num 1,
         parentOrigin = Str ''https://parent.example'', parent_window = 7,
         shaking = False, serving = True, ch_promise = Some Fulfilled,
         posted = [(3, handshake_reply_envelope (Num 1), Str ''https://parent.example'')],
         invoked = [], raised = 0\<rparr>"
  by (simp add: c1_def shake_def hs1_def c0_def Model_def assign_def settle_def)

text \<open>
  C8. When \<open>shake\<close> receives a handshake, the initiator's model is merged into the local
  model one level deep: a key supplied by the initiator that the local model has as an
  own property is overwritten with the supplied value, as is a supplied key that is new
  (any key but \<open>__proto__\<close>, whose assignment without an own property of that name runs
  the inherited setter); a local key that the initiator did not supply keeps its entry.
  In particular a supplied \<open>greeting: 'hi'\<close> is in the merged model.
\<close>

theorem handshake_merge:
  assumes "field (data e) ''postmate'' = Str ''handshake''"
  shows "(map_of (own_entries (field (data e) ''model'')) k = Some v
            \<and> (k \<noteq> ''__proto__'' \<or> map_of (model s) k \<noteq> None)
          \<longrightarrow> map_of (model (shake e s)) k = Some (Val v))
       \<and> (map_of (own_entries (field (data e) ''model'')) k = None
          \<longrightarrow> map_of (model (shake e s)) k = map_of (model s) k)"
proof (intro conjI impI)
  assume a: "map_of (own_entries (field (data e) ''model'')) k = Some v
            \<and> (k \<noteq> ''__proto__'' \<or> map_of (model s) k \<noteq> None)"
  show "map_of (model (shake e s)) k = Some (Val v)"
    unfolding shake_handshake_model [OF assms]
    by (rule merge_present) (use a in \<open>simp_all add: distinct_own_entries\<close>)
next
  assume a: "map_of (own_entries (field (data e) ''model'')) k = None"
  show "map_of (model (shake e s)) k = map_of (model s) k"
    unfolding shake_handshake_model [OF assms]
    by (simp add: merge_absent [OF a])
qed

theorem handshake_merge_witness:
  "field (data hs1) ''postmate'' = Str ''handshake''
   \<and> map_of (model c0) ''greeting'' = None
   \<and> map_of (model (shake hs1 c0)) ''greeting'' = Some (Val (Str ''hi''))
   \<and> map_of (model (shake hs1 c0)) ''height'' = Some (Val (Num 9))
   \<and> map_of (model (shake hs1 c0)) ''area'' = Some (Func (User 0))"
proof -
  have h: "field (data hs1) ''postmate'' = Str ''handshake''"
    by (simp add: hs1_def)
  have d: "own_entries (field (data hs1) ''model'') = [(''greeting'', Str ''hi''), (''height'', Num 9)]"
    by (simp add: hs1_def)
  have m: "model c0 = [(''height'', Val (Num 3)), (''width'', Val (Num 4)), (''area'', Func (User 0))]"
    by (simp add: c0_def Model_def)
  show ?thesis
    using h handshake_merge [OF h, of "''greeting''" "Str ''hi''" c0]
      handshake_merge [OF h, of "''height''" "Num 9" c0]
      handshake_merge [OF h, of "''area''" "Undefined" c0]
    by (simp add: d m)
qed

lemma call_envelope_fields:
  "field (call_envelope property d) ''postmate'' = Str ''call''"
  "field (call_envelope property d) ''type'' = Str messageType"
  "field (call_envelope property d) ''property'' = property"
  "field (call_envelope property d) ''data'' = d"
  by (simp_all add: call_envelope_def)

lemma sanitize_call_envelope:
  "data e = call_envelope property d \<Longrightarrow> sanitize e (Str (origin e)) = Some True"
  by (simp add: sanitize_def call_envelope_def messageTypes_def get_property_def)

lemma call_not_posted:
  "field (data e) ''postmate'' = Str ''call'' \<Longrightarrow> posted (child_listener run e s) = posted s"
  by (auto simp: child_listener_def invoke_def Let_def split: outcome.splits option.splits bool.splits entry.splits)

text \<open>
  What the listener does with a call envelope from the recorded parent origin, in terms
  of its own guard \<open>property in this.model && typeof this.model[property] === 'function'\<close>.
\<close>

lemma call_dispatch:
  "outbox (call (Str f) d a) = outbox a @ [(call_envelope (Str f) d, childOrigin a)]
   \<and> (data e = call_envelope (Str f) d \<and> parentOrigin s = Str (origin e) \<longrightarrow>
        (callable s f \<longrightarrow>
           (\<exists>g. get_property (model s) (model_proto s) f = Func g
                \<and> invoked (child_listener run e s) = invoked s @ [(g, [d])]))
        \<and> (\<not> callable s f \<longrightarrow> invoked (child_listener run e s) = invoked s))
   \<and> (field (data e) ''postmate'' = Str ''call'' \<longrightarrow>
        posted (child_listener run e s) = posted s)"
proof (intro conjI impI)
  show "outbox (call (Str f) d a) = outbox a @ [(call_envelope (Str f) d, childOrigin a)]"
    by (simp add: call_def)
next
  assume a: "data e = call_envelope (Str f) d \<and> parentOrigin s = Str (origin e)"
    and c: "callable s f"
  from a have sa: "sanitize e (parentOrigin s) = Some True"
    by (simp add: sanitize_call_envelope)
  from c obtain g where g: "get_property (model s) (model_proto s) f = Func g"
    by (cases "get_property (model s) (model_proto s) f")
      (auto simp: callable_def)
  from c have h: "has_property (model s) (model_proto s) f" by (simp add: callable_def)
  have "invoked (child_listener run e s) = invoked s @ [(g, [d])]"
    using a sa g h
    by (auto simp: child_listener_def call_envelope_fields invoke_def split: outcome.splits option.splits)
  with g show "\<exists>g. get_property (model s) (model_proto s) f = Func g
                \<and> invoked (child_listener run e s) = invoked s @ [(g, [d])]" by blast
next
  assume a: "data e = call_envelope (Str f) d \<and> parentOrigin s = Str (origin e)"
    and c: "\<not> callable s f"
  from a have sa: "sanitize e (parentOrigin s) = Some True"
    by (simp add: sanitize_call_envelope)
  show "invoked (child_listener run e s) = invoked s"
    using a sa c
    by (auto simp: child_listener_def call_envelope_fields invoke_def callable_def
        split: outcome.splits option.splits entry.splits)
next
  assume "field (data e) ''postmate'' = Str ''call''"
  then show "posted (child_listener run e s) = posted s" by (rule call_not_posted)
qed

text \<open>
  C9, as amended. \<open>call(f, payload)\<close> posts one call envelope naming \<open>f\<close> with the
  payload to the child origin. A responder that receives this envelope from its recorded
  parent origin invokes its model's function \<open>f\<close> with the payload when \<open>f\<close> is an own
  property of the model and a function; it invokes nothing when \<open>f\<close> is an own property
  that is no function, or when \<open>f\<close> is neither an own property of the model nor inherited
  through its prototype chain. Whatever a message of kind \<open>call\<close> holds, the listener
  posts no message for it.
\<close>

theorem call_invokes:
  "outbox (call (Str f) d a) = outbox a @ [(call_envelope (Str f) d, childOrigin a)]
   \<and> (data e = call_envelope (Str f) d \<and> parentOrigin s = Str (origin e) \<longrightarrow>
        (map_of (model s) f = Some (Func g) \<longrightarrow>
           invoked (child_listener run e s) = invoked s @ [(g, [d])])
        \<and> (map_of (model s) f = Some (Val v) \<longrightarrow>
           invoked (child_listener run e s) = invoked s)
        \<and> (map_of (model s) f = None \<and> inherited (model_proto s) f = None \<longrightarrow>
           invoked (child_listener run e s) = invoked s))
   \<and> (field (data e) ''postmate'' = Str ''call'' \<longrightarrow>
        posted (child_listener run e s) = posted s)"
proof (intro conjI impI)
  show "outbox (call (Str f) d a) = outbox a @ [(call_envelope (Str f) d, childOrigin a)]"
    by (simp add: call_def)
next
  assume a: "data e = call_envelope (Str f) d \<and> parentOrigin s = Str (origin e)"
    and o: "map_of (model s) f = Some (Func g)"
  from o have g: "get_property (model s) (model_proto s) f = Func g"
    by (simp add: get_property_def)
  from o have "callable s f"
    by (simp add: callable_def has_property_def get_property_def)
  with a call_dispatch [of f d a e s run] g
  show "invoked (child_listener run e s) = invoked s @ [(g, [d])]" by auto
next
  assume a: "data e = call_envelope (Str f) d \<and> parentOrigin s = Str (origin e)"
    and o: "map_of (model s) f = Some (Val v)"
  from o have "\<not> callable s f"
    by (simp add: callable_def get_property_def)
  with a call_dispatch [of f d a e s run]
  show "invoked (child_listener run e s) = invoked s" by blast
next
  assume a: "data e = call_envelope (Str f) d \<and> parentOrigin s = Str (origin e)"
    and o: "map_of (model s) f = None \<and> inherited (model_proto s) f = None"
  from o have "\<not> callable s f"
    by (simp add: callable_def has_property_def)
  with a call_dispatch [of f d a e s run]
  show "invoked (child_listener run e s) = invoked s" by blast
next
  assume "field (data e) ''postmate'' = Str ''call''"
  then show "posted (child_listener run e s) = posted s" by (rule call_not_posted)
qed

text \<open>
  C9 as stated fails: the model of the responder has no property \<open>toString\<close> of its
  own, yet a call naming it invokes a function with the payload, the method that every
  object inherits from \<open>Object.prototype\<close>.
\<close>

theorem call_invokes_counterexample:
  "map_of (model c1) ''toString'' = None
   \<and> data call_toString = call_envelope (Str ''toString'') (Num 2)
   \<and> parentOrigin c1 = Str (origin call_toString)
   \<and> invoked c1 = []
   \<and> invoked (child_listener run1 call_toString c1) = [(Builtin ''toString'', [Num 2])]"
  by (simp add: c1_state call_toString_def call_envelope_def child_listener_def sanitize_def
      messageTypes_def get_property_def has_property_def inherited_def
      from_object_prototype_def object_prototype_keys_def invoke_def run1_def)

theorem call_invokes_witness:
  "outbox (call (Str ''area'') (Num 2) api1)
     = [(call_envelope (Str ''area'') (Num 2), Str ''https://child.example'')]
   \<and> map_of (model c1) ''area'' = Some (Func (User 0))
   \<and> invoked (child_listener run0 call_area c1) = [(User 0, [Num 2])]
   \<and> map_of (model c1) ''height'' = Some (Val (Num 9))
   \<and> invoked (child_listener run0 call_height c1) = []
   \<and> map_of (model c1) ''depth'' = None
   \<and> inherited (model_proto c1) ''depth'' = None
   \<and> invoked (child_listener run0 call_depth c1) = []
   \<and> posted (child_listener run0 call_area c1) = posted c1"
proof -
  have m: "map_of (model c1) ''area'' = Some (Func (User 0))"
    "map_of (model c1) ''height'' = Some (Val (Num 9))"
    "map_of (model c1) ''depth'' = None \<and> inherited (model_proto c1) ''depth'' = None"
    by (simp_all add: c1_state inherited_def from_object_prototype_def object_prototype_keys_def)
  have e: "data call_area = call_envelope (Str ''area'') (Num 2)
             \<and> parentOrigin c1 = Str (origin call_area)"
    "data call_height = call_envelope (Str ''height'') (Num 2)
             \<and> parentOrigin c1 = Str (origin call_height)"
    "data call_depth = call_envelope (Str ''depth'') (Num 2)
             \<and> parentOrigin c1 = Str (origin call_depth)"
    by (simp_all add: call_area_def call_height_def call_depth_def c1_state)
  have k: "field (data call_area) ''postmate'' = Str ''call''"
    by (simp add: call_area_def call_envelope_def)
  have i: "invoked c1 = []" by (simp add: c1_state)
  have o: "outbox api1 = []" "childOrigin api1 = Str ''https://child.example''"
    by (simp_all add: api1_def ParentAPI_def)
  note t1 = call_invokes [where f = "''area''" and d = "Num 2" and a = api1 and e = call_area
      and s = c1 and g = "User 0" and run = run0 and v = Undefined]
  note t2 = call_invokes [where f = "''height''" and d = "Num 2" and a = api1 and e = call_height
      and s = c1 and g = "User 0" and run = run0 and v = "Num 9"]
  note t3 = call_invokes [where f = "''depth''" and d = "Num 2" and a = api1 and e = call_depth
      and s = c1 and g = "User 0" and run = run0 and v = Undefined]
  from t1 e(1) m(1) have r1: "invoked (child_listener run0 call_area c1) = invoked c1 @ [(User 0, [Num 2])]"
    by blast
  from t2 e(2) m(2) have r2: "invoked (child_listener run0 call_height c1) = invoked c1"
    by blast
  from t3 e(3) m(3) have r3: "invoked (child_listener run0 call_depth c1) = invoked c1"
    by blast
  from t1 k have r4: "posted (child_listener run0 call_area c1) = posted c1"
    by blast
  from t1 have r5: "outbox (call (Str ''area'') (Num 2) api1) =
      outbox api1 @ [(call_envelope (Str ''area'') (Num 2), childOrigin api1)]"
    by blast
  from m r1 r2 r3 r4 r5 show ?thesis by (simp add: i o)
qed

text \<open>
  C10, as amended. A sanitized message whose kind is not \<open>call\<close> and whose named property
  is neither an own property of the responder's model nor inherited through its
  prototype chain is answered: the listener posts one reply envelope to the sender and
  its origin, with the property, the request's \<open>uid\<close>, the responder's identifier and the
  value \<open>undefined\<close>; it changes nothing else, so no exception is raised and no function
  is invoked.
\<close>

theorem absent_property_reply:
  assumes "sanitize e (parentOrigin s) = Some True"
    and "field (data e) ''postmate'' \<noteq> Str ''call''"
    and "to_key (field (data e) ''property'') = Some k"
    and "map_of (model s) k = None"
    and "inherited (model_proto s) k = None"
  shows "child_listener run e s =
           s\<lparr>posted := posted s @
               [(source e,
                 reply_envelope (field (data e) ''property'') (ch_childId s)
                   (field (data e) ''uid'') Undefined,
                 Str (origin e))]\<rparr>
         \<and> field (reply_envelope (field (data e) ''property'') (ch_childId s)
                   (field (data e) ''uid'') Undefined) ''value'' = Undefined"
  using assms
  by (auto simp: child_listener_def resolveValue_def get_property_def
      reply_envelope_def split: outcome.splits option.splits)

text \<open>
  C10 as stated fails: the model has no property \<open>toString\<close> or \<open>__defineGetter__\<close> of
  its own; a request for the first is answered with the value \<open>[object Object]\<close>, and a
  request for the second calls the inherited method without arguments, which raises, and
  no reply is posted.
\<close>

theorem absent_property_reply_counterexample:
  "map_of (model c1) ''toString'' = None
   \<and> sanitize request_toString (parentOrigin c1) = Some True
   \<and> field (data request_toString) ''postmate'' = Str ''request''
   \<and> posted (child_listener run1 request_toString c1) =
       posted c1 @ [(3, reply_envelope (Str ''toString'') (Num 1) (Num 1)
                          (Str ''[object Object]''),
                     Str ''https://parent.example'')]
   \<and> map_of (model c1) ''__defineGetter__'' = None
   \<and> sanitize request_defineGetter (parentOrigin c1) = Some True
   \<and> posted (child_listener run1 request_defineGetter c1) = posted c1
   \<and> raised (child_listener run1 request_defineGetter c1) = Suc (raised c1)"
  by (simp add: c1_state request_toString_def request_defineGetter_def request_envelope_def
      child_listener_def sanitize_def messageTypes_def get_property_def inherited_def
      from_object_prototype_def object_prototype_keys_def resolveValue_def invoke_def run1_def)

theorem absent_property_reply_witness:
  "sanitize request_depth (parentOrigin c1) = Some True
   \<and> map_of (model c1) ''depth'' = None
   \<and> inherited (model_proto c1) ''depth'' = None
   \<and> child_listener run0 request_depth c1 =
       c1\<lparr>posted := posted c1 @
            [(3, reply_envelope (Str ''depth'') (Num 1) (Num 1) Undefined,
              Str ''https://parent.example'')]\<rparr>"
proof -
  have s: "sanitize request_depth (parentOrigin c1) = Some True"
    by (simp add: c1_state request_depth_def request_envelope_def sanitize_def messageTypes_def
        get_property_def)
  have k: "field (data request_depth) ''postmate'' \<noteq> Str ''call''"
    "to_key (field (data request_depth) ''property'') = Some ''depth''"
    "field (data request_depth) ''property'' = Str ''depth''"
    "field (data request_depth) ''uid'' = Num 1"
    "source request_depth = 3" "origin request_depth = ''https://parent.example''"
    by (simp_all add: request_depth_def request_envelope_def)
  have a: "map_of (model c1) ''depth'' = None" "inherited (model_proto c1) ''depth'' = None"
    by (simp_all add: c1_state inherited_def from_object_prototype_def
        object_prototype_keys_def)
  have i: "ch_childId c1 = Num 1" by (simp add: c1_state)
  show ?thesis
    using s a absent_property_reply [OF s k(1) k(2) a, of run0]
    by (simp add: k i)
qed

section \<open>Properties of the listeners\<close>

lemma api1_state:
  "api1 = \<lparr>parent = Window, childOrigin = Str ''https://child.example'', childId = Num 1,
           events = [], registered = [Emit], outbox = [], callbacks = [], resolved = [],
           frame_attached = True, uncaught = 0\<rparr>"
  by (simp add: api1_def ParentAPI_def)

lemma api2_state:
  "api2 = \<lparr>parent = Window, childOrigin = Str ''https://child.example'', childId = Num 1,
           events = [], registered = [Emit, Transact 1],
           outbox = [(request_envelope (Str ''height'') 1, Str ''https://child.example'')],
           callbacks = [], resolved = [], frame_attached = True, uncaught = 0\<rparr>"
  by (simp add: api2_def get_def generateNewMessageId_def api1_state)

lemma api4_state:
  "api4 = \<lparr>parent = Window, childOrigin = Str ''https://child.example'', childId = Num 1,
           events = [(''resize'', [5])], registered = [Emit, Transact 1],
           outbox = [(request_envelope (Str ''height'') 1, Str ''https://child.example'')],
           callbacks = [], resolved = [], frame_attached = True, uncaught = 0\<rparr>"
  by (simp add: api4_def api3_def on_def get_def generateNewMessageId_def api1_state
      inherited_def from_object_prototype_def object_prototype_keys_def)

lemma sanitize_forged_reply: "sanitize forged_reply (Str ''https://child.example'') = Some False"
  by (simp add: sanitize_def forged_reply_def)

lemma reply_gate:
  "reply e h \<noteq> h \<Longrightarrow>
     sanitize e (Str (target h)) = Some True \<and> authentic e (Str (target h))
     \<and> strict_eq (field (data e) ''childId'') (hs_childId h)"
  using sanitize_accepts [of e "Str (target h)"]
  by (auto simp: reply_def authentic_def split: option.splits bool.splits if_splits)

lemma listener_gate:
  "acted_api a (listener e a) \<Longrightarrow>
     sanitize e (childOrigin a) = Some True \<and> authentic e (childOrigin a)
     \<and> strict_eq (field (data e) ''childId'') (childId a)"
  using sanitize_accepts [of e "childOrigin a"]
  by (auto simp: listener_def acted_api_def authentic_def Let_def
      split: option.splits bool.splits if_splits)

lemma transact_gate:
  "acted_api a (transact uid e a) \<Longrightarrow>
     strict_eq (field (data e) ''childId'') (childId a)
     \<and> field (data e) ''uid'' = Num (int uid) \<and> field (data e) ''postmate'' = Str ''reply''"
  by (auto simp: transact_def acted_api_def split: if_splits)

lemma child_listener_gate:
  "acted_child c (child_listener run e c) \<Longrightarrow>
     sanitize e (parentOrigin c) = Some True \<and> authentic e (parentOrigin c)"
  using sanitize_accepts [of e "parentOrigin c"]
  by (auto simp: child_listener_def acted_child_def authentic_def
      split: outcome.splits option.splits bool.splits)

lemma shake_gate:
  "acted_child c (shake e c) \<Longrightarrow> truthy (field (data e) ''postmate'')"
  by (auto simp: shake_def acted_child_def split: if_splits)

text \<open>
  C1, as amended. A message that the initiator's handshake listener or its emission
  listener acts upon passes \<open>sanitize\<close> against the expected origin (so it bears the type
  tag and, the expected origin being a string, comes from it) and carries the pairing's
  instance identifier. A message that the responder's request and call listener acts
  upon passes \<open>sanitize\<close> against the parent origin recorded by the handshake; that
  listener checks no instance identifier. A message that the listener of \<open>get\<close> acts
  upon carries the pairing's instance identifier. A message that the handshake responder
  acts upon carries a truthy protocol marker.
\<close>

theorem inbound_gate:
  "(reply e h \<noteq> h \<longrightarrow>
      sanitize e (Str (target h)) = Some True \<and> authentic e (Str (target h))
      \<and> strict_eq (field (data e) ''childId'') (hs_childId h))
   \<and> (acted_api a (listener e a) \<longrightarrow>
      sanitize e (childOrigin a) = Some True \<and> authentic e (childOrigin a)
      \<and> strict_eq (field (data e) ''childId'') (childId a))
   \<and> (acted_api a (transact uid e a) \<longrightarrow>
      strict_eq (field (data e) ''childId'') (childId a))
   \<and> (acted_child c (child_listener run e c) \<longrightarrow>
      sanitize e (parentOrigin c) = Some True \<and> authentic e (parentOrigin c))
   \<and> (acted_child c (shake e c) \<longrightarrow> truthy (field (data e) ''postmate''))"
  using reply_gate [of e h] listener_gate [of a e] transact_gate [of a uid e]
    child_listener_gate [of c run e] shake_gate [of c e]
  by blast

text \<open>
  C1 as stated fails: the responder answers the request that \<open>get\<close> posts, which
  carries no instance identifier at all, while its pairing has the identifier 1.
\<close>

theorem inbound_gate_counterexample:
  "data request_height = request_envelope (Str ''height'') 1
   \<and> ch_childId c1 = Num 1
   \<and> field (data request_height) ''childId'' = Undefined
   \<and> \<not> strict_eq (field (data request_height) ''childId'') (ch_childId c1)
   \<and> child_listener run0 request_height c1 =
       c1\<lparr>posted := posted c1 @
            [(3, reply_envelope (Str ''height'') (Num 1) (Num 1) (Num 9),
              Str ''https://parent.example'')]\<rparr>
   \<and> acted_child c1 (child_listener run0 request_height c1)"
  by (simp add: request_height_def request_envelope_def c1_state child_listener_def
      sanitize_def messageTypes_def get_property_def resolveValue_def acted_child_def
      strict_eq_def)

theorem inbound_gate_witness:
  "reply ack1 h0 \<noteq> h0
   \<and> sanitize ack1 (Str (target h0)) = Some True
   \<and> strict_eq (field (data ack1) ''childId'') (hs_childId h0)
   \<and> acted_api api3 (listener emit_resize api3)
   \<and> sanitize emit_resize (childOrigin api3) = Some True
   \<and> strict_eq (field (data emit_resize) ''childId'') (childId api3)
   \<and> acted_api api2 (transact 1 late_reply api2)
   \<and> strict_eq (field (data late_reply) ''childId'') (childId api2)
   \<and> acted_child c1 (child_listener run0 request_height c1)
   \<and> sanitize request_height (parentOrigin c1) = Some True
   \<and> acted_child c0 (shake hs1 c0)
   \<and> truthy (field (data hs1) ''postmate'')"
proof -
  have s1: "sanitize ack1 (Str ''https://child.example'') = Some True"
    by (simp add: sanitize_def ack1_def handshake_reply_envelope_def messageTypes_def
        get_property_def)
  have t: "target h0 = ''https://child.example''" "promise h0 = None" "hs_childId h0 = Num 1"
    by (simp_all add: h0_def Postmate_def)
  have f: "field (data ack1) ''childId'' = Num 1"
    "field (data ack1) ''postmate'' = Str ''handshake-reply''"
    by (simp_all add: ack1_def handshake_reply_envelope_def)
  have "promise (reply ack1 h0) = Some Fulfilled"
    by (simp add: reply_def t s1 f settle_def)
  then have p1: "reply ack1 h0 \<noteq> h0"
    using t(2) by auto
  have s2: "sanitize emit_resize (Str ''https://child.example'') = Some True"
    by (simp add: sanitize_def emit_resize_def emit_envelope_def messageTypes_def
        get_property_def)
  have a3: "api3 = api1\<lparr>events := [(''resize'', [5])]\<rparr>"
    by (simp add: api3_def on_def api1_state inherited_def from_object_prototype_def
        object_prototype_keys_def)
  have p2: "acted_api api3 (listener emit_resize api3)"
    by (simp add: acted_api_def listener_def a3 api1_state s2)
      (simp add: emit_resize_def emit_envelope_def)
  have p3: "acted_api api2 (transact 1 late_reply api2)"
    by (simp add: acted_api_def transact_def api2_state late_reply_def reply_envelope_def)
  have p4: "acted_child c1 (child_listener run0 request_height c1)"
    by (simp add: request_height_def request_envelope_def c1_state child_listener_def
        sanitize_def messageTypes_def get_property_def resolveValue_def acted_child_def)
  have p5: "acted_child c0 (shake hs1 c0)"
  proof -
    have "shaking (shake hs1 c0) \<noteq> shaking c0"
      using c1_state by (simp add: c1_def c0_def Model_def)
    moreover have "shaking ((shake hs1 c0)\<lparr>raised := raised c0\<rparr>) = shaking (shake hs1 c0)"
      by simp
    ultimately have "(shake hs1 c0)\<lparr>raised := raised c0\<rparr> \<noteq> c0" by metis
    then show ?thesis by (simp add: acted_child_def)
  qed
  note q1 = inbound_gate [of ack1 h0 api3 1 c1 run0, THEN conjunct1, THEN mp, OF p1]
  note q2 = inbound_gate [of emit_resize h0 api3 1 c1 run0, THEN conjunct2, THEN conjunct1,
      THEN mp, OF p2]
  note q3 = inbound_gate [of late_reply h0 api2 1 c1 run0, THEN conjunct2, THEN conjunct2,
      THEN conjunct1, THEN mp, OF p3]
  note q4 = inbound_gate [of request_height h0 api2 1 c1 run0, THEN conjunct2, THEN conjunct2,
      THEN conjunct2, THEN conjunct1, THEN mp, OF p4]
  note q5 = inbound_gate [of hs1 h0 api2 1 c0 run0, THEN conjunct2, THEN conjunct2,
      THEN conjunct2, THEN conjunct2, THEN mp, OF p5]
  from p1 p2 p3 p4 p5 q1 q2 q3 q4 q5 show ?thesis
    by (intro conjI) (elim conjE, assumption)+
qed

text \<open>
  C5. Claim: the listener that \<open>get\<close> registers accepts only messages that pass
  sanitization. The listener \<open>transact\<close> does not call \<open>sanitize\<close>: with the request of
  \<open>uid\<close> 1 outstanding, a message from another origin and without the type tag, which
  \<open>sanitize\<close> rejects, resolves the request with its value and removes the listener.
\<close>

theorem get_accepts_unsanitized:
  "registered api2 = [Emit, Transact 1]
   \<and> sanitize forged_reply (childOrigin api2) = Some False
   \<and> resolved (deliver forged_reply api2) = [(1, Str ''forged'')]
   \<and> registered (deliver forged_reply api2) = [Emit]"
  by (simp add: api2_state deliver_def listener_def transact_def sanitize_forged_reply)
    (simp add: forged_reply_def)

section \<open>Properties of the instance identifier\<close>

lemma assign_frame:
  "posted (assign k v s) = posted s" "ch_childId (assign k v s) = ch_childId s"
  by (auto simp: assign_def set_prototype_def split: proto.splits jsval.splits option.splits)

lemma merge_frame:
  "posted (fold (\<lambda>(key, v). assign key v) kvs s) = posted s
   \<and> ch_childId (fold (\<lambda>(key, v). assign key v) kvs s) = ch_childId s"
  by (induction kvs arbitrary: s) (auto simp: assign_frame)

lemma shake_reply_posted:
  assumes "field (data e) ''postmate'' = Str ''handshake''"
  shows "ch_childId (shake e s) = field (data e) ''childId''
       \<and> posted (shake e s) =
           posted s @ [(source e, handshake_reply_envelope (ch_childId (shake e s)), Str (origin e))]"
proof -
  from assms have n: "\<not> nullish (data e)" by (cases "data e") auto
  show ?thesis using assms n by (simp add: shake_def Let_def merge_frame)
qed

lemma child_listener_posted:
  "posted (child_listener run e s) = posted s
   \<or> (\<exists>v. posted (child_listener run e s) =
           posted s @ [(source e,
                        reply_envelope (field (data e) ''property'') (ch_childId s)
                          (field (data e) ''uid'') v,
                        Str (origin e))])"
  by (auto simp: child_listener_def resolveValue_def invoke_def Let_def
      split: outcome.splits option.splits bool.splits entry.splits)

text \<open>
  C6, as amended. Every message the responder posts after the handshake request carries
  the instance identifier recorded from the handshake: the handshake reply, each reply
  to a request, each emission. The request envelope posted by \<open>get\<close> and the call
  envelope posted by \<open>call\<close> have no property \<open>childId\<close>.
\<close>

theorem identifier_carried:
  "(field (data e) ''postmate'' = Str ''handshake'' \<longrightarrow>
      ch_childId (shake e s) = field (data e) ''childId''
      \<and> posted (shake e s) =
          posted s @ [(source e, handshake_reply_envelope (ch_childId (shake e s)), Str (origin e))])
   \<and> field (handshake_reply_envelope cid) ''childId'' = cid
   \<and> (posted (child_listener run e s) = posted s
       \<or> (\<exists>v. posted (child_listener run e s) =
              posted s @ [(source e,
                           reply_envelope (field (data e) ''property'') (ch_childId s)
                             (field (data e) ''uid'') v,
                           Str (origin e))]))
   \<and> field (reply_envelope p cid u w) ''childId'' = cid
   \<and> posted (emit name d s) =
        posted s @ [(parent_window s, emit_envelope (ch_childId s) name d, parentOrigin s)]
   \<and> field (emit_envelope cid name d) ''childId'' = cid
   \<and> outbox (snd (get p messageId a)) =
        outbox a @ [(request_envelope p (Suc messageId), childOrigin a)]
   \<and> \<not> has_own (request_envelope p (Suc messageId)) ''childId''
   \<and> outbox (call p d a) = outbox a @ [(call_envelope p d, childOrigin a)]
   \<and> \<not> has_own (call_envelope p d) ''childId''"
proof (intro conjI impI)
  assume h: "field (data e) ''postmate'' = Str ''handshake''"
  show "ch_childId (shake e s) = field (data e) ''childId''"
    using shake_reply_posted [OF h] by blast
  show "posted (shake e s) =
          posted s @ [(source e, handshake_reply_envelope (ch_childId (shake e s)), Str (origin e))]"
    using shake_reply_posted [OF h] by blast
next
  show "posted (child_listener run e s) = posted s
       \<or> (\<exists>v. posted (child_listener run e s) =
              posted s @ [(source e,
                           reply_envelope (field (data e) ''property'') (ch_childId s)
                             (field (data e) ''uid'') v,
                           Str (origin e))])"
    by (rule child_listener_posted)
qed (simp_all add: handshake_reply_envelope_def reply_envelope_def emit_def emit_envelope_def
    get_def generateNewMessageId_def request_envelope_def call_def call_envelope_def)

text \<open>
  C6 as stated fails: the request envelope that \<open>get('height')\<close> posts for the pairing
  with identifier 1 carries none.
\<close>

theorem identifier_carried_counterexample:
  "outbox api2 = [(request_envelope (Str ''height'') 1, Str ''https://child.example'')]
   \<and> childId api2 = Num 1
   \<and> field (request_envelope (Str ''height'') 1) ''childId'' = Undefined
   \<and> \<not> strict_eq (field (request_envelope (Str ''height'') 1) ''childId'') (childId api2)"
  by (simp add: api2_state request_envelope_def strict_eq_def)

theorem identifier_carried_witness:
  "field (data hs1) ''postmate'' = Str ''handshake''
   \<and> ch_childId (shake hs1 c0) = Num 1
   \<and> posted (shake hs1 c0) = [(3, handshake_reply_envelope (Num 1), Str ''https://parent.example'')]
   \<and> field (handshake_reply_envelope (Num 1)) ''childId'' = Num 1
   \<and> outbox (snd (get (Str ''height'') 0 api1))
       = [(request_envelope (Str ''height'') 1, Str ''https://child.example'')]
   \<and> \<not> has_own (request_envelope (Str ''height'') 1) ''childId''"
proof -
  have h: "field (data hs1) ''postmate'' = Str ''handshake''"
    "field (data hs1) ''childId'' = Num 1" "source hs1 = 3"
    "origin hs1 = ''https://parent.example''"
    by (simp_all add: hs1_def)
  have c: "posted c0 = []" by (simp add: c0_def Model_def)
  have a: "outbox api1 = []" "childOrigin api1 = Str ''https://child.example''"
    by (simp_all add: api1_state)
  note i = identifier_carried [of hs1 c0 "Num 1" run0 "Str ''height''" Undefined Undefined
      Undefined Undefined 0 api1]
  from i h(1) have i1: "ch_childId (shake hs1 c0) = field (data hs1) ''childId''"
    and i2: "posted (shake hs1 c0) =
          posted c0 @ [(source hs1, handshake_reply_envelope (ch_childId (shake hs1 c0)),
                        Str (origin hs1))]"
    and i3: "field (handshake_reply_envelope (Num 1)) ''childId'' = Num 1"
    and i4: "outbox (snd (get (Str ''height'') 0 api1)) =
        outbox api1 @ [(request_envelope (Str ''height'') (Suc 0), childOrigin api1)]"
    and i5: "\<not> has_own (request_envelope (Str ''height'') (Suc 0)) ''childId''"
    by blast+
  show ?thesis
    using i1 i2 i3 i4 i5 by (simp add: h c a)
qed

section \<open>Properties of destruction\<close>

lemma transact_frame:
  "callbacks (transact uid e s) = callbacks s" "childId (transact uid e s) = childId s"
  "parent (transact uid e s) = parent s"
  "set (registered (transact uid e s)) \<subseteq> set (registered s)"
  "set (resolved s) \<subseteq> set (resolved (transact uid e s))"
  by (auto simp: transact_def)

lemma listener_frame:
  "childId (listener e s) = childId s" "parent (listener e s) = parent s"
  "registered (listener e s) = registered s" "resolved (listener e s) = resolved s"
  by (auto simp: listener_def Let_def split: option.splits bool.splits)

lemma run_listener_frame:
  "childId (run_listener l e s) = childId s" "parent (run_listener l e s) = parent s"
  "set (registered (run_listener l e s)) \<subseteq> set (registered s)"
  "set (resolved s) \<subseteq> set (resolved (run_listener l e s))"
  by (cases l; simp add: transact_frame listener_frame)+

lemma dispatch_frame:
  "childId (fold (\<lambda>l. run_listener l e) ls s) = childId s
   \<and> parent (fold (\<lambda>l. run_listener l e) ls s) = parent s
   \<and> set (registered (fold (\<lambda>l. run_listener l e) ls s)) \<subseteq> set (registered s)
   \<and> set (resolved s) \<subseteq> set (resolved (fold (\<lambda>l. run_listener l e) ls s))"
proof (induction ls arbitrary: s)
  case Nil
  show ?case by simp
next
  case (Cons l ls)
  from Cons.IH [of "run_listener l e s"] run_listener_frame [where l = l and e = e and s = s]
  show ?case by (simp; blast)
qed

lemma dispatch_callbacks:
  "Emit \<notin> set ls \<Longrightarrow> callbacks (fold (\<lambda>l. run_listener l e) ls s) = callbacks s"
proof (induction ls arbitrary: s)
  case Nil
  show ?case by simp
next
  case (Cons l ls)
  then obtain uid where l: "l = Transact uid" by (cases l) auto
  from Cons have "Emit \<notin> set ls" by simp
  from Cons.IH [OF this] show ?case by (simp add: l transact_frame)
qed

lemma deliver_no_emit:
  "Emit \<notin> set (registered s) \<Longrightarrow>
     callbacks (deliver e s) = callbacks s \<and> Emit \<notin> set (registered (deliver e s))"
  using dispatch_frame [where e = e and ls = "registered s" and s = s]
  by (auto simp: deliver_def dispatch_callbacks)

lemma deliveries_no_emit:
  "Emit \<notin> set (registered s) \<Longrightarrow> callbacks (fold deliver es s) = callbacks s"
proof (induction es arbitrary: s)
  case Nil
  show ?case by simp
next
  case (Cons e es)
  from deliver_no_emit [OF Cons.prems, of e] Cons.IH [of "deliver e s"]
  show ?case by simp
qed

lemma deliver_elsewhere: "parent s \<noteq> Window \<Longrightarrow> fold deliver es s = s"
  by (induction es) (simp_all add: deliver_def)

lemma destroy_frame:
  "callbacks (destroy s) = callbacks s" "parent (destroy s) = parent s"
  "childId (destroy s) = childId s" "\<not> frame_attached (destroy s)"
  "registered (destroy s) = (if parent s = Window then removeAll Emit (registered s) else registered s)"
  by (simp_all add: destroy_def Let_def)

lemma dispatch_resolves:
  "Transact uid \<in> set ls \<Longrightarrow> matching_reply e uid (childId s)
     \<Longrightarrow> (uid, field (data e) ''value'') \<in> set (resolved (fold (\<lambda>l. run_listener l e) ls s))"
proof (induction ls arbitrary: s)
  case Nil
  then show ?case by simp
next
  case (Cons l ls)
  show ?case
  proof (cases "l = Transact uid")
    case True
    from Cons.prems(2) have n: "\<not> nullish (data e)"
      by (cases "data e") (auto simp: matching_reply_def)
    have "(uid, field (data e) ''value'') \<in> set (resolved (transact uid e s))"
      using Cons.prems(2) n by (simp add: transact_def matching_reply_def)
    then show ?thesis
      using dispatch_frame [where e = e and ls = ls and s = "transact uid e s"] by (auto simp: True)
  next
    case False
    with Cons.prems have m: "Transact uid \<in> set ls" by simp
    have "matching_reply e uid (childId (run_listener l e s))"
      using Cons.prems(2) by (simp add: run_listener_frame)
    from Cons.IH [OF m this] show ?thesis by simp
  qed
qed

text \<open>
  C7, as amended. \<open>destroy()\<close> detaches the frame and, for an API whose \<open>parent\<close> is the
  window, removes its persistent listener; after it no sequence of inbound messages
  invokes an event callback. The one-shot listeners of the \<open>get\<close> requests outstanding
  at that time are not removed: each stays registered and still resolves its request
  when a matching reply arrives.
\<close>

theorem destroy_stops_events:
  "\<not> frame_attached (destroy a)
   \<and> (parent a = Window \<longrightarrow> Emit \<notin> set (registered (destroy a)))
   \<and> callbacks (fold deliver es (destroy a)) = callbacks a
   \<and> (Transact uid \<in> set (registered a) \<longrightarrow> Transact uid \<in> set (registered (destroy a)))
   \<and> (parent a = Window \<and> Transact uid \<in> set (registered a)
        \<and> matching_reply e uid (childId a)
      \<longrightarrow> (uid, field (data e) ''value'') \<in> set (resolved (deliver e (destroy a))))"
proof (intro conjI impI)
  show "\<not> frame_attached (destroy a)" by (simp add: destroy_frame)
next
  assume "parent a = Window"
  then show "Emit \<notin> set (registered (destroy a))" by (simp add: destroy_frame)
next
  show "callbacks (fold deliver es (destroy a)) = callbacks a"
  proof (cases "parent a = Window")
    case True
    then have "Emit \<notin> set (registered (destroy a))" by (simp add: destroy_frame)
    then show ?thesis by (simp add: deliveries_no_emit destroy_frame)
  next
    case False
    then have "parent (destroy a) \<noteq> Window" by (simp add: destroy_frame)
    then show ?thesis by (simp add: deliver_elsewhere destroy_frame)
  qed
next
  assume "Transact uid \<in> set (registered a)"
  then show "Transact uid \<in> set (registered (destroy a))" by (simp add: destroy_frame)
next
  assume a: "parent a = Window \<and> Transact uid \<in> set (registered a)
        \<and> matching_reply e uid (childId a)"
  then have "Transact uid \<in> set (registered (destroy a))"
    and "matching_reply e uid (childId (destroy a))"
    and "parent (destroy a) = Window"
    by (simp_all add: destroy_frame)
  then show "(uid, field (data e) ''value'') \<in> set (resolved (deliver e (destroy a)))"
    by (simp add: deliver_def dispatch_resolves)
qed

text \<open>
  C7 as stated fails: after \<open>destroy()\<close> a reply that matches the request still
  outstanding, addressed to the pairing's identifier, is acted upon.
\<close>

theorem destroy_stops_events_counterexample:
  "registered api2 = [Emit, Transact 1]
   \<and> registered (destroy api2) = [Transact 1]
   \<and> resolved (destroy api2) = []
   \<and> strict_eq (field (data late_reply) ''childId'') (childId (destroy api2))
   \<and> resolved (deliver late_reply (destroy api2)) = [(1, Num 9)]
   \<and> acted_api (destroy api2) (deliver late_reply (destroy api2))"
  by (simp add: api2_state destroy_def deliver_def transact_def late_reply_def
      reply_envelope_def acted_api_def)

theorem destroy_stops_events_witness:
  "parent api4 = Window
   \<and> Transact 1 \<in> set (registered api4)
   \<and> matching_reply late_reply 1 (childId api4)
   \<and> callbacks (deliver emit_resize api4) = [(5, Num 640)]
   \<and> Emit \<notin> set (registered (destroy api4))
   \<and> \<not> frame_attached (destroy api4)
   \<and> callbacks (fold deliver [emit_resize, late_reply] (destroy api4)) = []
   \<and> (1, Num 9) \<in> set (resolved (deliver late_reply (destroy api4)))"
proof -
  have p: "parent api4 = Window" "Transact 1 \<in> set (registered api4)" "callbacks api4 = []"
    by (simp_all add: api4_state)
  have m: "matching_reply late_reply 1 (childId api4)"
    "field (data late_reply) ''value'' = Num 9"
    by (simp_all add: matching_reply_def late_reply_def reply_envelope_def api4_state)
  have s: "sanitize emit_resize (Str ''https://child.example'') = Some True"
    by (simp add: sanitize_def emit_resize_def emit_envelope_def messageTypes_def
        get_property_def)
  have b: "callbacks (deliver emit_resize api4) = [(5, Num 640)]"
    by (simp add: deliver_def api4_state listener_def transact_def s)
      (simp add: emit_resize_def emit_envelope_def)
  note d = destroy_stops_events [of api4 "[emit_resize, late_reply]" 1 late_reply]
  from d p m have d1: "\<not> frame_attached (destroy api4)"
    and d2: "Emit \<notin> set (registered (destroy api4))"
    and d3: "callbacks (fold deliver [emit_resize, late_reply] (destroy api4)) = callbacks api4"
    and d4: "(1, field (data late_reply) ''value'') \<in> set (resolved (deliver late_reply (destroy api4)))"
    by blast+
  from p m b d1 d2 d3 d4 show ?thesis by simp
qed

end
